theory Spec2Isabelle
  imports Main
begin

section \<open>Python values used by the bridge\<close>

text \<open>
  The handlers keep a few attributes whose Python type is not fixed: \<open>ws_failed\<close> is
  \<open>None\<close> or a reason string, and the supervisor compares it with \<open>True\<close> by identity.
  \<open>pyval\<close> holds the values such an attribute can take; \<open>py_is_True v\<close> is the Python
  expression \<open>v is True\<close>, which holds for the singleton \<open>True\<close> only.
\<close>

datatype pyval = PyNone | PyBool bool | PyStr string | PyInt int

definition py_is_True :: "pyval \<Rightarrow> bool" where
  "py_is_True v = (v = PyBool True)"

text \<open>\<open>str(i)\<close> for a Python int: the decimal digits, with a leading minus sign.\<close>

definition digit_char :: "nat \<Rightarrow> char" where
  "digit_char d = ''0123456789'' ! d"

fun digits_of_nat :: "nat \<Rightarrow> string" where
  "digits_of_nat n =
     (if n < 10 then [digit_char n]
      else digits_of_nat (n div 10) @ [digit_char (n mod 10)])"

declare digits_of_nat.simps [simp del]

definition str_int :: "int \<Rightarrow> string" where
  "str_int i = (if i < 0 then CHR ''-'' # digits_of_nat (nat (- i)) else digits_of_nat (nat i))"

section \<open>The metrics object (metricshandler.py)\<close>

text \<open>
  \<open>MetricsHandler.__init__\<close> sets the four counters to 0 and \<open>metrics_enabled\<close> to
  \<open>False\<close>. Both handlers hold a reference to the object in \<open>self.metrics\<close>.
\<close>

record metrics =
  count_from_ws :: int
  count_to_ws :: int
  count_mq_connection_attempts :: int
  count_ws_connection_attempts :: int
  metrics_enabled :: bool

definition metrics_init :: metrics where
  "metrics_init = \<lparr> count_from_ws = 0, count_to_ws = 0, count_mq_connection_attempts = 0,
     count_ws_connection_attempts = 0, metrics_enabled = False \<rparr>"

text \<open>
  The guard \<open>self.metrics and self.metrics.metrics_enabled\<close> followed by one update of
  the object: nothing happens when the reference is \<open>None\<close> or metrics are disabled.
\<close>

definition when_metrics :: "metrics option \<Rightarrow> (metrics \<Rightarrow> metrics) \<Rightarrow> metrics option" where
  "when_metrics m f =
     (case m of None \<Rightarrow> None
      | Some x \<Rightarrow> if metrics_enabled x then Some (f x) else Some x)"

section \<open>The broker handler (mqhandler.py)\<close>

text \<open>
  \<open>MQHandler\<close> as a record of the attributes the operations below read or write. The
  channel is \<open>None\<close> or a channel object, of which only the list of consumer tags is
  read; the connection is \<open>None\<close> or an opaque handle. \<open>max_retries\<close> is the int 5 after
  \<open>__init__\<close>; the code tests it for truth, so 0 means "no limit".
\<close>

record channel =
  consumer_tags :: "string list"

record mqhandler =
  mq_channel :: "channel option"
  mq_connection :: "nat option"
  mq_running :: bool
  max_retries :: int
  ttl_from_ws :: int
  mq_qname_from_ws :: string
  mq_metrics :: "metrics option"

text \<open>
  The handler after \<open>__init__\<close> and \<open>setup_mqhandler\<close> with the default TTL: no
  channel, no connection, not running, at most 5 retries, 300 seconds.
\<close>

definition mqhandler_init :: mqhandler where
  "mqhandler_init = \<lparr> mq_channel = None, mq_connection = None, mq_running = False,
     max_retries = 5, ttl_from_ws = 300, mq_qname_from_ws = ''from_ws'',
     mq_metrics = Some metrics_init \<rparr>"

subsection \<open>The consume callback \<open>MQHandler.__call__\<close>\<close>

text \<open>
  What the callback does to the received message: \<open>message.ack()\<close> or
  \<open>message.reject(requeue=r)\<close>. The callback returns its result together with the
  list of these actions, in order, and the state of the component behind the forward
  method (\<open>mq_to_ws_method\<close>), which is a parameter: a function from the body and that
  state to the returned bool and the new state.
\<close>

datatype msg_action = Ack | Reject bool

definition mq_call ::
  "(string \<Rightarrow> 'w \<Rightarrow> bool \<times> 'w) \<Rightarrow> mqhandler \<Rightarrow> string \<Rightarrow> 'w \<Rightarrow> bool \<times> msg_action list \<times> 'w"
where
  "mq_call mq_to_ws_method h body w =
     (if mq_channel h = None then (False, [], w)
      else if \<not> mq_running h then (False, [Reject True], w)
      else
        (let (success, w') = mq_to_ws_method body w
         in if success then (success, [Ack], w') else (success, [Reject True], w')))"

text \<open>
  Two forward methods for the instances below. The state behind them is the number of
  calls made so far: \<open>forward_accept_ok\<close> accepts exactly the body \<open>ok\<close>,
  \<open>forward_accept_all\<close> accepts every body.
\<close>

definition forward_accept_ok :: "string \<Rightarrow> nat \<Rightarrow> bool \<times> nat" where
  "forward_accept_ok b n = (b = ''ok'', Suc n)"

definition forward_accept_all :: "string \<Rightarrow> nat \<Rightarrow> bool \<times> nat" where
  "forward_accept_all b n = (True, Suc n)"

definition mqhandler_consuming :: mqhandler where
  "mqhandler_consuming =
     mqhandler_init\<lparr>mq_channel := Some \<lparr>consumer_tags = [''mqhandler'']\<rparr>, mq_running := True\<rparr>"


subsection \<open>Publishing: \<open>MQHandler.send_message\<close>\<close>

text \<open>
  Exceptions of the source are values of \<open>py_error\<close>; an operation that can raise
  returns \<open>py_error + 'a\<close>, with \<open>Inl\<close> for the exception that leaves it.
\<close>

datatype py_error = AttributeError | AMQPError | KeyboardInterrupt | TypeError | BinasciiError | OtherException

text \<open>
  \<open>amqpstorm.Message.create(channel, body, properties)\<close>: the message is its body and
  its properties. \<open>send_message\<close> builds the properties from the handler's
  \<open>ttl_from_ws\<close>, which \<open>setup_mqhandler\<close> stores as \<open>int(config.mq_ttl_from_ws)\<close>
  (\<open>__init__\<close> documents it as a number of seconds).
\<close>

record amqp_message =
  msg_body :: string
  msg_properties :: "(string \<times> string) list"

definition message_properties :: "mqhandler \<Rightarrow> (string \<times> string) list" where
  "message_properties h =
     [(''content_type'', ''text/plain''), (''expiration'', str_int (ttl_from_ws h))]"

text \<open>
  The test harness (bridgetester.py) publishes with the same two properties, from its
  own attribute \<open>mq_ttl = 300 * 1000\<close>.
\<close>

definition bridgetester_mq_ttl :: int where
  "bridgetester_mq_ttl = 300 * 1000"

definition bridgetester_properties :: "(string \<times> string) list" where
  "bridgetester_properties =
     [(''content_type'', ''text/plain''), (''expiration'', str_int bridgetester_mq_ttl)]"

text \<open>
  The retry loop reads \<open>self.channel.consumer_tags\<close> and \<open>self.mq_running\<close> at the head
  of every iteration, and other threads (\<open>close\<close>, the consume loop) write them while
  the loop sleeps. \<open>try_obs\<close> is what iteration number \<open>i\<close> (from 0) finds: whether the
  channel has consumer tags, whether the running flag is set, and whether
  \<open>message.publish(routing_key)\<close> returns (\<open>True\<close>) or raises (\<open>False\<close>).
\<close>

record try_obs =
  tags_present :: bool
  running_now :: bool
  publish_ok :: bool

text \<open>
  What the operation does to the outside: the queue declaration, each call of
  \<open>message.publish\<close> with its outcome, and each \<open>time.sleep\<close> with its seconds.
\<close>

datatype mq_effect = QueueDeclare string | TryPublish string amqp_message bool | Sleep int

text \<open>
  The \<open>while retry_count > 0 and message is not None\<close> loop. The message is set to
  \<open>None\<close> only right before the \<open>break\<close>, so at the loop head it is never \<open>None\<close>, and
  after the loop it is \<open>None\<close> exactly when a publish went through: the returned bool.
  \<open>maxr\<close> is \<open>self.max_retries\<close>, \<open>i\<close> counts the iterations.
\<close>

function publish_loop ::
  "int \<Rightarrow> (nat \<Rightarrow> try_obs) \<Rightarrow> string \<Rightarrow> amqp_message \<Rightarrow> nat \<Rightarrow> int \<Rightarrow> bool \<times> mq_effect list"
where
  "publish_loop maxr obs routing_key message i retry_count =
     (if retry_count > 0 then
        (if (\<not> tags_present (obs i) \<or> \<not> running_now (obs i)) \<and> retry_count < maxr
         then (False, [])
         else if publish_ok (obs i) then (True, [TryPublish routing_key message True])
         else
           (let (r, eff) = publish_loop maxr obs routing_key message (Suc i) (retry_count - 1)
            in (r, TryPublish routing_key message False # Sleep 1 # eff)))
      else (False, []))"
  by pat_completeness auto
termination
  by (relation "measure (\<lambda>(maxr, obs, routing_key, message, i, retry_count). nat retry_count)") auto

declare publish_loop.simps [simp del]

text \<open>
  \<open>send_message(exchange, routing_key, body)\<close>. \<open>self.channel.queue.declare\<close> raises
  AttributeError when the channel is \<open>None\<close> and an AMQP error when the broker refuses
  (\<open>declare_ok = False\<close>); neither is caught.
\<close>

definition send_message ::
  "mqhandler \<Rightarrow> bool \<Rightarrow> (nat \<Rightarrow> try_obs) \<Rightarrow> string \<Rightarrow> string \<Rightarrow> string
     \<Rightarrow> py_error + bool \<times> mq_effect list"
where
  "send_message h declare_ok obs exchange routing_key body =
     (case mq_channel h of
        None \<Rightarrow> Inl AttributeError
      | Some c \<Rightarrow>
          if \<not> declare_ok then Inl AMQPError
          else
            (let message = \<lparr> msg_body = body, msg_properties = message_properties h \<rparr>;
                 (r, eff) = publish_loop (max_retries h) obs routing_key message 0 (max_retries h)
             in Inr (r, QueueDeclare routing_key # eff)))"

definition send_message_from_ws ::
  "mqhandler \<Rightarrow> bool \<Rightarrow> (nat \<Rightarrow> try_obs) \<Rightarrow> string \<Rightarrow> py_error + bool \<times> mq_effect list"
where
  "send_message_from_ws h declare_ok obs msg =
     send_message h declare_ok obs [] (mq_qname_from_ws h) msg"

text \<open>
  Broker behaviours for the instances below: a healthy broker; one that never accepts;
  one that accepts the third try; a handler whose running flag is found cleared at every iteration, with a
  broker that accepts; and a handler stopped after the first try.
\<close>

definition obs_healthy :: "nat \<Rightarrow> try_obs" where
  "obs_healthy i = \<lparr> tags_present = True, running_now = True, publish_ok = True \<rparr>"

definition obs_never_accepts :: "nat \<Rightarrow> try_obs" where
  "obs_never_accepts i = \<lparr> tags_present = True, running_now = True, publish_ok = False \<rparr>"

definition obs_third_try_ok :: "nat \<Rightarrow> try_obs" where
  "obs_third_try_ok i = \<lparr> tags_present = True, running_now = True, publish_ok = (i = 2) \<rparr>"

definition obs_stopped_publish_ok :: "nat \<Rightarrow> try_obs" where
  "obs_stopped_publish_ok i = \<lparr> tags_present = True, running_now = False, publish_ok = True \<rparr>"

definition obs_stopped_after_first :: "nat \<Rightarrow> try_obs" where
  "obs_stopped_after_first i = \<lparr> tags_present = True, running_now = (i = 0), publish_ok = (i = 2) \<rparr>"

subsection \<open>Connecting: \<open>MQHandler.create_connection\<close>\<close>

text \<open>
  Each call of \<open>amqpstorm.UriConnection(self.mq_url)\<close> returns a connection, raises an
  AMQP error, or is interrupted from the keyboard; the script lists what the successive
  calls do. The loop may go on for ever (no retry limit, a broker that never answers):
  a script that ends while the loop still wants to connect gives \<open>None\<close>. The result is
  the final value of the local \<open>attempts\<close>, the handler, and the seconds of each
  \<open>time.sleep\<close> in order. The method runs on the broker thread; no other thread writes
  \<open>mq_running\<close> meanwhile in this model.
\<close>

datatype connect_outcome = Connected nat | ConnectFails | ConnectInterrupted

fun create_connection_loop ::
  "connect_outcome list \<Rightarrow> nat \<Rightarrow> mqhandler \<Rightarrow> int list \<Rightarrow> (nat \<times> mqhandler \<times> int list) option"
where
  "create_connection_loop [] attempts h sleeps =
     (if mq_running h then None else Some (attempts, h, sleeps))"
| "create_connection_loop (out # script) attempts h sleeps =
     (if \<not> mq_running h then Some (attempts, h, sleeps)
      else
        (let attempts = attempts + 1;
             h = h\<lparr>mq_metrics := when_metrics (mq_metrics h)
                    (\<lambda>m. m\<lparr>count_mq_connection_attempts := int attempts\<rparr>)\<rparr>
         in case out of
              Connected c \<Rightarrow> Some (attempts, h\<lparr>mq_connection := Some c\<rparr>, sleeps)
            | ConnectFails \<Rightarrow>
                if max_retries h \<noteq> 0 \<and> int attempts > max_retries h
                then Some (attempts, h\<lparr>mq_running := False\<rparr>, sleeps)
                else create_connection_loop script attempts h (sleeps @ [min (int attempts * 2) 30])
            | ConnectInterrupted \<Rightarrow> Some (attempts, h\<lparr>mq_running := False\<rparr>, sleeps)))"

definition create_connection ::
  "connect_outcome list \<Rightarrow> mqhandler \<Rightarrow> (nat \<times> mqhandler \<times> int list) option"
where
  "create_connection script h = create_connection_loop script 0 h []"

text \<open>
  The handler after \<open>n\<close> attempts of one call: from the first attempt on, the
  broker-connect-attempts counter holds the number of the last attempt (when metrics
  are enabled); nothing else has changed.
\<close>

definition attempted :: "nat \<Rightarrow> mqhandler \<Rightarrow> mqhandler" where
  "attempted n h =
     (if n = 0 then h
      else h\<lparr>mq_metrics := when_metrics (mq_metrics h)
               (\<lambda>m. m\<lparr>count_mq_connection_attempts := int n\<rparr>)\<rparr>)"

text \<open>
  A handler as \<open>consume_messages\<close> leaves it before its first \<open>create_connection\<close>:
  running, with metrics enabled.
\<close>

definition mqhandler_started :: mqhandler where
  "mqhandler_started = mqhandler_init\<lparr>mq_running := True,
      mq_metrics := Some (metrics_init\<lparr>metrics_enabled := True\<rparr>)\<rparr>"

text \<open>The attempts counter as the metrics reporter reads it.\<close>

definition mq_attempts_counter :: "mqhandler \<Rightarrow> int" where
  "mq_attempts_counter h = (case mq_metrics h of None \<Rightarrow> 0 | Some m \<Rightarrow> count_mq_connection_attempts m)"

section \<open>The signed URL (wshandler.py)\<close>

subsection \<open>Dictionaries, sets of items and JSON\<close>

text \<open>
  A Python dict keeps its keys in insertion order: an association list with distinct
  keys. \<open>d[k] = v\<close> replaces the value of a key that is present, in place, and appends a
  new key. \<open>dict(pairs)\<close> stores the pairs one after the other, so of two pairs with
  the same key the later one gives the value.
\<close>

datatype jval = JStr string | JInt int

type_synonym pydict = "(string \<times> jval) list"

fun dict_setitem :: "('k \<times> 'v) list \<Rightarrow> 'k \<Rightarrow> 'v \<Rightarrow> ('k \<times> 'v) list" where
  "dict_setitem [] k v = [(k, v)]"
| "dict_setitem ((k', v') # d) k v =
     (if k' = k then (k', v) # d else (k', v') # dict_setitem d k v)"

definition dict_of_pairs :: "('k \<times> 'v) list \<Rightarrow> ('k \<times> 'v) list" where
  "dict_of_pairs ps = foldl (\<lambda>d (k, v). dict_setitem d k v) [] ps"

text \<open>
  The source merges two dicts with \<open>dict(a.items() | b.items())\<close>: the union of the two
  item views is a Python \<open>set\<close> of (key, value) pairs, and \<open>dict\<close> iterates over it. The
  order in which a set is iterated is not given by its elements: in CPython it follows
  the hashes of the pairs, and the hash of a string changes from one process to the
  next (hash randomisation). The order is therefore a parameter \<open>iter\<close> of everything
  below: a function that lists the elements of a set, given as a duplicate-free list.
  \<open>iteration_order iter\<close> says that it lists each element once.
\<close>

definition iteration_order :: "((string \<times> jval) list \<Rightarrow> (string \<times> jval) list) \<Rightarrow> bool" where
  "iteration_order iter \<longleftrightarrow> (\<forall>xs. distinct xs \<longrightarrow> set (iter xs) = set xs \<and> distinct (iter xs))"

definition items_union ::
  "((string \<times> jval) list \<Rightarrow> (string \<times> jval) list) \<Rightarrow> pydict \<Rightarrow> pydict \<Rightarrow> (string \<times> jval) list"
where
  "items_union iter a b = iter (remdups (a @ b))"

text \<open>
  No key occurs with two values in the united items: each dict has distinct keys, and
  a key of both has the same value in both.
\<close>

definition no_key_clash :: "pydict \<Rightarrow> pydict \<Rightarrow> bool" where
  "no_key_clash a b \<longleftrightarrow> distinct (map fst (remdups (a @ b)))"

text \<open>
  \<open>json.dumps\<close> with its defaults, on a dict from strings to strings and ints:
  separators \<open>", "\<close> and \<open>": "\<close>, and (\<open>ensure_ascii\<close>) every character outside the
  printable ASCII range escaped. A \<open>char\<close> is a code point below 256 here.
\<close>

definition hex_char :: "nat \<Rightarrow> char" where
  "hex_char d = ''0123456789abcdef'' ! d"

definition json_escape_char :: "char \<Rightarrow> string" where
  "json_escape_char c =
     (if c = CHR 0x22 then [CHR 0x5C, CHR 0x22]
      else if c = CHR 0x5C then [CHR 0x5C, CHR 0x5C]
      else if c = CHR 0x0A then [CHR 0x5C, CHR ''n'']
      else if c = CHR 0x0D then [CHR 0x5C, CHR ''r'']
      else if c = CHR 0x09 then [CHR 0x5C, CHR ''t'']
      else if c = CHR 0x0C then [CHR 0x5C, CHR ''f'']
      else if c = CHR 0x08 then [CHR 0x5C, CHR ''b'']
      else if (of_char c :: nat) < 32 \<or> (of_char c :: nat) > 126
      then [CHR 0x5C, CHR ''u'', CHR ''0'', CHR ''0'',
            hex_char ((of_char c :: nat) div 16), hex_char ((of_char c :: nat) mod 16)]
      else [c])"

definition json_string :: "string \<Rightarrow> string" where
  "json_string s = [CHR 0x22] @ concat (map json_escape_char s) @ [CHR 0x22]"

fun json_value :: "jval \<Rightarrow> string" where
  "json_value (JStr s) = json_string s"
| "json_value (JInt i) = str_int i"

fun join_with :: "string \<Rightarrow> string list \<Rightarrow> string" where
  "join_with sep [] = []"
| "join_with sep [x] = x"
| "join_with sep (x # y # ys) = x @ sep @ join_with sep (y # ys)"

definition json_member :: "string \<times> jval \<Rightarrow> string" where
  "json_member kv = json_string (fst kv) @ '': '' @ json_value (snd kv)"

definition json_dumps :: "pydict \<Rightarrow> string" where
  "json_dumps d = ''{'' @ join_with '', '' (map json_member d) @ ''}''"

subsection \<open>\<open>WSHandler.b64encode\<close>\<close>

text \<open>
  \<open>base64.urlsafe_b64encode\<close> on bytes, then every \<open>=\<close> removed. A \<open>str\<close> argument is
  encoded (UTF-8) first.
\<close>

definition b64_char :: "nat \<Rightarrow> char" where
  "b64_char n = ''ABCDEFGHIJKLMNOPQRSTUVWXYZabcdefghijklmnopqrstuvwxyz0123456789-_'' ! n"

fun urlsafe_b64encode :: "string \<Rightarrow> string" where
  "urlsafe_b64encode (a # b # c # rest) =
     (let n = (of_char a :: nat) * 65536 + of_char b * 256 + of_char c
      in [b64_char (n div 262144), b64_char (n div 4096 mod 64), b64_char (n div 64 mod 64),
          b64_char (n mod 64)] @ urlsafe_b64encode rest)"
| "urlsafe_b64encode [a, b] =
     (let n = (of_char a :: nat) * 65536 + of_char b * 256
      in [b64_char (n div 262144), b64_char (n div 4096 mod 64), b64_char (n div 64 mod 64),
          CHR ''=''])"
| "urlsafe_b64encode [a] =
     (let n = (of_char a :: nat) * 65536
      in [b64_char (n div 262144), b64_char (n div 4096 mod 64), CHR ''='', CHR ''=''])"
| "urlsafe_b64encode [] = []"

definition utf8_encode_char :: "char \<Rightarrow> string" where
  "utf8_encode_char c =
     (if (of_char c :: nat) < 128 then [c]
      else [char_of (192 + (of_char c :: nat) div 64), char_of (128 + (of_char c :: nat) mod 64)])"

definition utf8_encode :: "string \<Rightarrow> string" where
  "utf8_encode s = concat (map utf8_encode_char s)"

datatype pytext = PyText string | PyBytes string

definition b64encode :: "pytext \<Rightarrow> string" where
  "b64encode t =
     (let bytes = (case t of PyText s \<Rightarrow> utf8_encode s | PyBytes b \<Rightarrow> b)
      in filter (\<lambda>c. c \<noteq> CHR ''='') (urlsafe_b64encode bytes))"

subsection \<open>Header, payload, signature and token\<close>

text \<open>
  \<open>generate_header(params)\<close> and \<open>generate_payload(key_id, path, uri, method,
  payload_params)\<close>. The payload reads the clock (\<open>current_time = int(round(time.time()))\<close>)
  and draws a random nonce (\<open>str(uuid.uuid4())\<close>): both are arguments here. The dict
  that is serialised is named apart from its serialisation.
\<close>

definition algo_items :: pydict where
  "algo_items = [(''alg'', JStr ''HS256''), (''typ'', JStr ''JWT'')]"

definition header_dict :: "((string \<times> jval) list \<Rightarrow> (string \<times> jval) list) \<Rightarrow> pydict \<Rightarrow> pydict" where
  "header_dict iter params = dict_of_pairs (items_union iter algo_items params)"

definition generate_header :: "((string \<times> jval) list \<Rightarrow> (string \<times> jval) list) \<Rightarrow> pydict \<Rightarrow> string" where
  "generate_header iter params = b64encode (PyText (json_dumps (header_dict iter params)))"

definition jwt_payload_items :: "string \<Rightarrow> string \<Rightarrow> string \<Rightarrow> string \<Rightarrow> int \<Rightarrow> string \<Rightarrow> pydict" where
  "jwt_payload_items key_id path uri method current_time nonce =
     [(''iss'', JStr key_id), (''kid'', JStr key_id),
      (''exp'', JInt (current_time + 300)), (''nbf'', JInt (current_time - 60)),
      (''iat'', JInt (current_time - 60)), (''region'', JStr ''ny''),
      (''method'', JStr method), (''path'', JStr path), (''host'', JStr uri),
      (''client_id'', JStr key_id), (''nonce'', JStr nonce)]"

definition payload_dict ::
  "((string \<times> jval) list \<Rightarrow> (string \<times> jval) list) \<Rightarrow> int \<Rightarrow> string \<Rightarrow>
     string \<Rightarrow> string \<Rightarrow> string \<Rightarrow> string \<Rightarrow> pydict \<Rightarrow> pydict"
where
  "payload_dict iter current_time nonce key_id path uri method payload_params =
     dict_of_pairs (items_union iter (jwt_payload_items key_id path uri method current_time nonce)
       payload_params)"

definition generate_payload ::
  "((string \<times> jval) list \<Rightarrow> (string \<times> jval) list) \<Rightarrow> int \<Rightarrow> string \<Rightarrow>
     string \<Rightarrow> string \<Rightarrow> string \<Rightarrow> string \<Rightarrow> pydict \<Rightarrow> string"
where
  "generate_payload iter current_time nonce key_id path uri method payload_params =
     b64encode (PyText (json_dumps
       (payload_dict iter current_time nonce key_id path uri method payload_params)))"

text \<open>
  \<open>generate_signature(payload, key_secret)\<close>. HMAC-SHA256 is the library's
  (\<open>hmac.new(key, msg, hashlib.sha256).digest()\<close>); it is a parameter, a function from
  the key bytes and the message bytes to the digest bytes.
\<close>

definition generate_signature :: "(string \<Rightarrow> string \<Rightarrow> string) \<Rightarrow> string \<Rightarrow> string \<Rightarrow> string" where
  "generate_signature hmac_sha256 payload key_secret =
     b64encode (PyBytes (hmac_sha256 key_secret (utf8_encode payload)))"

text \<open>
  \<open>generate_jwt\<close>: the three parts joined by dots. \<open>jwt_parts\<close> gives the header, the
  payload and the signature that the token is made of.
\<close>

definition jwt_parts ::
  "(string \<Rightarrow> string \<Rightarrow> string) \<Rightarrow> ((string \<times> jval) list \<Rightarrow> (string \<times> jval) list) \<Rightarrow> int \<Rightarrow> string \<Rightarrow>
     string \<Rightarrow> string \<Rightarrow> string \<Rightarrow> string \<Rightarrow> string \<Rightarrow> pydict \<Rightarrow> pydict \<Rightarrow> string \<times> string \<times> string"
where
  "jwt_parts hmac_sha256 iter current_time nonce key_id key_secret path uri method jwt_params header_params =
     (let header = generate_header iter header_params;
          payload = generate_payload iter current_time nonce key_id path uri method jwt_params;
          jwt_header = header @ ''.'' @ payload;
          signature = generate_signature hmac_sha256 jwt_header key_secret
      in (header, payload, signature))"

definition generate_jwt ::
  "(string \<Rightarrow> string \<Rightarrow> string) \<Rightarrow> ((string \<times> jval) list \<Rightarrow> (string \<times> jval) list) \<Rightarrow> int \<Rightarrow> string \<Rightarrow>
     string \<Rightarrow> string \<Rightarrow> string \<Rightarrow> string \<Rightarrow> string \<Rightarrow> pydict \<Rightarrow> pydict \<Rightarrow> string"
where
  "generate_jwt hmac_sha256 iter current_time nonce key_id key_secret path uri method jwt_params header_params =
     (let (header, payload, signature) =
            jwt_parts hmac_sha256 iter current_time nonce key_id key_secret path uri method
              jwt_params header_params
      in header @ ''.'' @ payload @ ''.'' @ signature)"

subsection \<open>\<open>generate_url\<close> and \<open>generate_websocket_url\<close>\<close>

text \<open>
  \<open>binascii.unhexlify\<close> turns the hex-encoded client secret into bytes and raises on an
  odd length or a character that is no hex digit.
\<close>

definition hex_val :: "char \<Rightarrow> nat option" where
  "hex_val c =
     (let n = (of_char c :: nat)
      in if 48 \<le> n \<and> n \<le> 57 then Some (n - 48)
         else if 97 \<le> n \<and> n \<le> 102 then Some (n - 87)
         else if 65 \<le> n \<and> n \<le> 70 then Some (n - 55)
         else None)"

fun unhexlify :: "string \<Rightarrow> py_error + string" where
  "unhexlify [] = Inr []"
| "unhexlify [a] = Inl BinasciiError"
| "unhexlify (a # b # rest) =
     (case (hex_val a, hex_val b) of
        (Some x, Some y) \<Rightarrow>
          (case unhexlify rest of Inl e \<Rightarrow> Inl e | Inr bs \<Rightarrow> Inr (char_of (16 * x + y) # bs))
      | _ \<Rightarrow> Inl BinasciiError)"

text \<open>
  \<open>generate_url\<close> stores the token under the key \<open>jwt\<close> of the query parameters and
  appends their URL encoding (\<open>urllib.parse.urlencode\<close>, a parameter) to host and path.
\<close>

definition generate_url ::
  "((string \<times> string) list \<Rightarrow> string) \<Rightarrow> (string \<Rightarrow> string \<Rightarrow> string) \<Rightarrow>
     ((string \<times> jval) list \<Rightarrow> (string \<times> jval) list) \<Rightarrow> int \<Rightarrow> string \<Rightarrow>
     string \<Rightarrow> string \<Rightarrow> string \<times> string \<Rightarrow> string \<Rightarrow> pydict \<Rightarrow> pydict \<Rightarrow> (string \<times> string) list
     \<Rightarrow> py_error + string"
where
  "generate_url urlencode hmac_sha256 iter current_time nonce path method credentials uri
       jwt_params header_params query_params =
     (let client_id = fst credentials; client_secret = snd credentials
      in case unhexlify client_secret of
           Inl e \<Rightarrow> Inl e
         | Inr key_secret \<Rightarrow>
             Inr (uri @ path @ ''?'' @
                  urlencode (dict_setitem query_params ''jwt''
                    (generate_jwt hmac_sha256 iter current_time nonce client_id key_secret path uri
                       method jwt_params header_params))))"

text \<open>
  \<open>generate_websocket_url\<close> merges \<open>connection_expiry\<close>, from a clock reading of its
  own (\<open>time_ws\<close>, taken before the payload's), into the extra payload parameters.
\<close>

definition websocket_jwt_params ::
  "((string \<times> jval) list \<Rightarrow> (string \<times> jval) list) \<Rightarrow> int \<Rightarrow> pydict \<Rightarrow> pydict"
where
  "websocket_jwt_params iter time_ws jwt_params =
     dict_of_pairs (items_union iter [(''connection_expiry'', JInt (time_ws + 300))] jwt_params)"

definition generate_websocket_url ::
  "((string \<times> string) list \<Rightarrow> string) \<Rightarrow> (string \<Rightarrow> string \<Rightarrow> string) \<Rightarrow>
     ((string \<times> jval) list \<Rightarrow> (string \<times> jval) list) \<Rightarrow> int \<Rightarrow> int \<Rightarrow> string \<Rightarrow>
     string \<Rightarrow> string \<Rightarrow> string \<times> string \<Rightarrow> string \<Rightarrow> pydict \<Rightarrow> pydict \<Rightarrow> (string \<times> string) list
     \<Rightarrow> py_error + string"
where
  "generate_websocket_url urlencode hmac_sha256 iter time_ws current_time nonce path method
       credentials uri jwt_params header_params query_params =
     generate_url urlencode hmac_sha256 iter current_time nonce path method credentials uri
       (websocket_jwt_params iter time_ws jwt_params) header_params query_params"

text \<open>The fixed nonce of the spec's determinism scenario, for the instances below.\<close>

definition nonce_zero :: string where
  "nonce_zero = ''00000000-0000-0000-0000-000000000000''"

section \<open>The WebSocket handler (wshandler.py)\<close>

text \<open>
  \<open>WSHandler\<close> as a record. \<open>ws_failed\<close> is \<open>None\<close> until a terminal failure stores a
  reason string in it.
\<close>

record wshandler =
  ws_failed :: pyval
  ws_connected :: bool
  ws_running :: bool
  ws_handle :: "nat option"
  ws_max_connect_attempts :: int
  ws_attempt_window_secs :: int
  ws_metrics :: "metrics option"

definition wshandler_init :: wshandler where
  "wshandler_init = \<lparr> ws_failed = PyNone, ws_connected = False, ws_running = False,
     ws_handle = None, ws_max_connect_attempts = 10, ws_attempt_window_secs = 60,
     ws_metrics = Some (metrics_init\<lparr>metrics_enabled := True\<rparr>) \<rparr>"

subsection \<open>Callbacks\<close>

text \<open>
  \<open>on_message_handler\<close> is \<open>None\<close> or a method whose result the handler ignores: a
  function from the frame and the state of the component behind it to the new state.
\<close>

definition on_open :: "wshandler \<Rightarrow> wshandler" where
  "on_open h = h\<lparr>ws_connected := True\<rparr>"

definition on_message ::
  "(string \<Rightarrow> 's \<Rightarrow> 's) option \<Rightarrow> wshandler \<Rightarrow> string \<Rightarrow> 's \<Rightarrow> wshandler \<times> 's"
where
  "on_message on_message_handler h message s =
     (case on_message_handler of
        None \<Rightarrow> (h, s)
      | Some f \<Rightarrow>
          (h\<lparr>ws_metrics := when_metrics (ws_metrics h) (\<lambda>m. m\<lparr>count_from_ws := count_from_ws m + 1\<rparr>)\<rparr>,
           f message s))"

definition failed_to_connect :: string where
  "failed_to_connect = ''websocket appears to have failed to connect (unidentified by library)''"

definition on_close :: "wshandler \<Rightarrow> pyval \<Rightarrow> pyval \<Rightarrow> wshandler" where
  "on_close h code msg =
     (let h = h\<lparr>ws_connected := False\<rparr>
      in if code = PyNone \<and> msg = PyNone then h\<lparr>ws_failed := PyStr failed_to_connect\<rparr> else h)"

subsection \<open>\<open>send_ws_message\<close> and its stub\<close>

datatype ws_effect = WsSend string | WsSleep int

text \<open>
  \<open>send_ok\<close> says whether \<open>self.ws_handle.send(msg)\<close> returns; an exception there is
  caught and gives \<open>False\<close>.
\<close>

definition send_ws_message :: "wshandler \<Rightarrow> bool \<Rightarrow> string \<Rightarrow> bool \<times> wshandler \<times> ws_effect list" where
  "send_ws_message h send_ok msg =
     (if ws_connected h \<and> ws_running h then
        (if \<not> send_ok then (False, h, [])
         else (True,
               h\<lparr>ws_metrics := when_metrics (ws_metrics h) (\<lambda>m. m\<lparr>count_to_ws := count_to_ws m + 1\<rparr>)\<rparr>,
               [WsSend msg]))
      else (False, h, if ws_running h then [WsSleep 1] else []))"

text \<open>The module constant \<open>STUB_SEND_DELAY = 0\<close>.\<close>

definition STUB_SEND_DELAY :: int where
  "STUB_SEND_DELAY = 0"

text \<open>
  \<open>send_ws_message_stub\<close> calls \<open>self.on_message_handler(msg)\<close> without the test for
  \<open>None\<close> that \<open>on_message\<close> makes: calling \<open>None\<close> raises TypeError. The handler is taken
  to return.
\<close>

definition send_ws_message_stub ::
  "(string \<Rightarrow> 's \<Rightarrow> 's) option \<Rightarrow> wshandler \<Rightarrow> string \<Rightarrow> 's
     \<Rightarrow> py_error + bool \<times> wshandler \<times> 's \<times> ws_effect list"
where
  "send_ws_message_stub on_message_handler h msg s =
     (if ws_connected h \<and> ws_running h then
        (let eff = (if STUB_SEND_DELAY > 0 then [WsSleep STUB_SEND_DELAY] else []);
             h = h\<lparr>ws_metrics := when_metrics (ws_metrics h)
                    (\<lambda>m. m\<lparr>count_to_ws := count_to_ws m + 1, count_from_ws := count_from_ws m + 1\<rparr>)\<rparr>
         in case on_message_handler of
              None \<Rightarrow> Inl TypeError
            | Some f \<Rightarrow> Inr (True, h, f msg s, eff))
      else Inr (False, h, s, if ws_running h then [WsSleep 1] else []))"

text \<open>
  A sequence of frames sent through the stub one after the other, each call starting
  from the state the previous one left: the results, the final handler, the final state
  behind \<open>on_message_handler\<close> and all effects.
\<close>

fun stub_send_all ::
  "(string \<Rightarrow> 's \<Rightarrow> 's) option \<Rightarrow> wshandler \<Rightarrow> string list \<Rightarrow> 's
     \<Rightarrow> py_error + bool list \<times> wshandler \<times> 's \<times> ws_effect list"
where
  "stub_send_all f h [] s = Inr ([], h, s, [])"
| "stub_send_all f h (m # ms) s =
     (case send_ws_message_stub f h m s of
        Inl e \<Rightarrow> Inl e
      | Inr (r, h', s', eff) \<Rightarrow>
          (case stub_send_all f h' ms s' of
             Inl e \<Rightarrow> Inl e
           | Inr (rs, h'', s'', effs) \<Rightarrow> Inr (r # rs, h'', s'', eff @ effs)))"

text \<open>
  An \<open>on_message_handler\<close> that records the frames delivered to it, in order; and the
  stub handler as \<open>run_ws_server_stub\<close> sets it up (running and connected).
\<close>

definition record_frame :: "string \<Rightarrow> string list \<Rightarrow> string list" where
  "record_frame m delivered = delivered @ [m]"

definition wshandler_stub_running :: wshandler where
  "wshandler_stub_running = wshandler_init\<lparr>ws_running := True, ws_connected := True\<rparr>"

subsection \<open>The connect loop \<open>run_ws_server\<close>\<close>

text \<open>
  One element of the script is what one iteration of the loop meets: whether another
  thread called \<open>close\<close> before the test of \<open>ws_running\<close>; whether building the URL and
  the \<open>WebSocketApp\<close> went through (an exception there is caught and the loop
  continues); the callbacks the library made during \<open>run_forever\<close>; how \<open>run_forever\<close>
  ended; and the seconds between \<open>last_attempt_time\<close> and its end. A script that ends
  while the loop still wants to connect gives \<open>None\<close>.
\<close>

datatype ws_callback = OnOpen | OnMessage string | OnClose pyval pyval | OnError

datatype session_end = Teardown bool | SessionInterrupted | SessionRaises

record ws_attempt =
  closed_before :: bool
  app_created :: bool
  callbacks :: "ws_callback list"
  session_end :: session_end
  session_secs :: int

fun run_callbacks ::
  "(string \<Rightarrow> 's \<Rightarrow> 's) option \<Rightarrow> wshandler \<Rightarrow> ws_callback list \<Rightarrow> 's \<Rightarrow> wshandler \<times> 's"
where
  "run_callbacks f h [] s = (h, s)"
| "run_callbacks f h (OnOpen # cs) s = run_callbacks f (on_open h) cs s"
| "run_callbacks f h (OnMessage m # cs) s =
     (let (h', s') = on_message f h m s in run_callbacks f h' cs s')"
| "run_callbacks f h (OnClose code msg # cs) s = run_callbacks f (on_close h code msg) cs s"
| "run_callbacks f h (OnError # cs) s = run_callbacks f h cs s"

definition attempts_exceeded :: string where
  "attempts_exceeded = ''Exiting WebSocket forever loop because number of connect attempts exceeded''"

fun run_ws_server_loop ::
  "(string \<Rightarrow> 's \<Rightarrow> 's) option \<Rightarrow> ws_attempt list \<Rightarrow> int \<Rightarrow> wshandler \<Rightarrow> 's
     \<Rightarrow> ((py_error + unit) \<times> wshandler \<times> 's) option"
where
  "run_ws_server_loop f [] attempt h s =
     (if attempt < ws_max_connect_attempts h then None
      else Some (Inr (), h\<lparr>ws_failed := PyStr attempts_exceeded\<rparr>, s))"
| "run_ws_server_loop f (a # script) attempt h s =
     (if \<not> attempt < ws_max_connect_attempts h
      then Some (Inr (), h\<lparr>ws_failed := PyStr attempts_exceeded\<rparr>, s)
      else
        (let attempt = attempt + 1;
             h = (if closed_before a then h\<lparr>ws_running := False\<rparr> else h)
         in if \<not> ws_running h then Some (Inr (), h, s)
            else
              (let h = h\<lparr>ws_metrics := when_metrics (ws_metrics h)
                          (\<lambda>m. m\<lparr>count_ws_connection_attempts := attempt\<rparr>)\<rparr>
               in if \<not> app_created a then run_ws_server_loop f script attempt h s
                  else
                    (let (h, s) = run_callbacks f (h\<lparr>ws_handle := Some (nat attempt)\<rparr>) (callbacks a) s
                     in case session_end a of
                          Teardown t \<Rightarrow>
                            run_ws_server_loop f script
                              (if session_secs a > ws_attempt_window_secs h then 0 else attempt) h s
                        | SessionInterrupted \<Rightarrow>
                            run_ws_server_loop f script attempt (h\<lparr>ws_running := False\<rparr>) s
                        | SessionRaises \<Rightarrow> Some (Inl OtherException, h, s)))))"

definition run_ws_server ::
  "(string \<Rightarrow> 's \<Rightarrow> 's) option \<Rightarrow> ws_attempt list \<Rightarrow> wshandler \<Rightarrow> 's
     \<Rightarrow> ((py_error + unit) \<times> wshandler \<times> 's) option"
where
  "run_ws_server f script h s = run_ws_server_loop f script 0 (h\<lparr>ws_running := True\<rparr>) s"

definition ws_attempts_counter :: "wshandler \<Rightarrow> int" where
  "ws_attempts_counter h = (case ws_metrics h of None \<Rightarrow> 0 | Some m \<Rightarrow> count_ws_connection_attempts m)"

text \<open>
  Sessions for the instances: one that never handshakes (the library closes it with
  neither code nor message), one that is open for 100 seconds and then drops, and the
  stop of the handler from another thread.
\<close>

definition session_no_handshake :: ws_attempt where
  "session_no_handshake = \<lparr> closed_before = False, app_created = True,
     callbacks = [OnError, OnClose PyNone PyNone], session_end = Teardown True, session_secs = 1 \<rparr>"

definition session_long :: ws_attempt where
  "session_long = \<lparr> closed_before = False, app_created = True,
     callbacks = [OnOpen, OnMessage ''frame'', OnClose (PyInt 1006) (PyStr ''dropped'')],
     session_end = Teardown False, session_secs = 100 \<rparr>"

definition session_stopped :: ws_attempt where
  "session_stopped = \<lparr> closed_before = True, app_created = True,
     callbacks = [], session_end = Teardown False, session_secs = 0 \<rparr>"

section \<open>The supervisor's startup poll (mq2wsbridge.py)\<close>

text \<open>
  The part of \<open>Mq2WsBridge\<close> that \<open>main\<close> writes between the start of the threads and
  the watch loop, with \<open>successful_start\<close>, the local that \<open>main\<close> returns as the exit
  code. \<open>int_sleeper_set\<close> records \<open>bb.int_sleeper.set()\<close>.
\<close>

record supervisor =
  server_running :: bool
  int_sleeper_set :: bool
  successful_start :: int

text \<open>
  The handlers run on their own threads while \<open>main\<close> polls: \<open>view poll\<close> is the state
  of the two handlers as iteration \<open>poll\<close> of \<open>for poll in range(60)\<close> reads it. The
  second argument of \<open>poll_from\<close> counts the iterations that remain. The result holds
  the seconds of each \<open>mysleep\<close>.
\<close>

fun poll_from ::
  "(nat \<Rightarrow> mqhandler \<times> wshandler) \<Rightarrow> nat \<Rightarrow> nat \<Rightarrow> supervisor \<Rightarrow> supervisor \<times> int list"
where
  "poll_from view 0 poll bb = (bb, [])"
| "poll_from view (Suc n) poll bb =
     (if py_is_True (ws_failed (snd (view poll)))
      then (bb\<lparr>server_running := False, int_sleeper_set := True, successful_start := 1\<rparr>, [])
      else if mq_running (fst (view poll)) \<and> ws_running (snd (view poll)) \<and> ws_connected (snd (view poll))
      then (bb, [])
      else (let (bb', sleeps) = poll_from view n (Suc poll) bb in (bb', 1 # sleeps)))"

definition startup_poll ::
  "(nat \<Rightarrow> mqhandler \<times> wshandler) \<Rightarrow> supervisor \<Rightarrow> supervisor \<times> int list"
where
  "startup_poll view bb = poll_from view 60 0 bb"

text \<open>
  The supervisor when the poll starts (\<open>server_running\<close> set, \<open>successful_start = 0\<close>),
  and a run in which the WebSocket never handshakes: the library calls \<open>on_close\<close> with
  neither code nor message before the first poll, and nothing changes afterwards.
\<close>

definition supervisor_started :: supervisor where
  "supervisor_started = \<lparr> server_running = True, int_sleeper_set = False, successful_start = 0 \<rparr>"

definition ws_after_failed_handshake :: wshandler where
  "ws_after_failed_handshake = on_close (wshandler_init\<lparr>ws_running := True\<rparr>) PyNone PyNone"

definition view_failed_handshake :: "nat \<Rightarrow> mqhandler \<times> wshandler" where
  "view_failed_handshake poll = (mqhandler_consuming, ws_after_failed_handshake)"

text \<open>The two frame counters as the metrics reporter reads them through a handler.\<close>

definition ws_frames_to :: "wshandler \<Rightarrow> int" where
  "ws_frames_to h = (case ws_metrics h of None \<Rightarrow> 0 | Some m \<Rightarrow> count_to_ws m)"

definition ws_frames_from :: "wshandler \<Rightarrow> int" where
  "ws_frames_from h = (case ws_metrics h of None \<Rightarrow> 0 | Some m \<Rightarrow> count_from_ws m)"

section \<open>Properties of the consume callback\<close>

text \<open>
  C1, as amended. Whenever the callback runs with a channel set: if the handler is not
  running, the message is rejected with requeue and the callback returns false without
  calling the forward method; otherwise the forward method is called once on the body,
  and the message is acked exactly once (and nothing else) if it returned true, rejected
  with requeue (and nothing else) if it returned false; the callback returns what the
  forward method returned.
\<close>

theorem mq_call_contract:
  assumes "mq_channel h \<noteq> None"
  shows "(\<not> mq_running h \<longrightarrow> mq_call f h body w = (False, [Reject True], w)) \<and>
         (mq_running h \<longrightarrow>
            mq_call f h body w =
              (fst (f body w), (if fst (f body w) then [Ack] else [Reject True]), snd (f body w)))"
  using assms by (simp add: mq_call_def split: prod.splits)

text \<open>
  Instances: a running handler with a channel acks the body \<open>ok\<close> and rejects the
  body \<open>no\<close>, each after one call of the forward method; the same handler with the
  running flag cleared rejects without calling it.
\<close>

theorem mq_call_contract_witness:
  "mq_channel mqhandler_consuming \<noteq> None \<and>
   mq_call forward_accept_ok mqhandler_consuming ''ok'' 0 = (True, [Ack], 1) \<and>
   mq_call forward_accept_ok mqhandler_consuming ''no'' 0 = (False, [Reject True], 1) \<and>
   mq_call forward_accept_ok (mqhandler_consuming\<lparr>mq_running := False\<rparr>) ''ok'' 0
     = (False, [Reject True], 0)"
  using mq_call_contract [of mqhandler_consuming forward_accept_ok "''ok''" 0]
    mq_call_contract [of mqhandler_consuming forward_accept_ok "''no''" 0]
    mq_call_contract [of "mqhandler_consuming\<lparr>mq_running := False\<rparr>" forward_accept_ok "''ok''" 0]
  by (simp add: mqhandler_consuming_def mqhandler_init_def forward_accept_ok_def)

text \<open>
  C1 as stated fails when the channel reference is unset: a handler that is not running
  then returns false and leaves the message alone, where the claim has it rejected with
  requeue.
\<close>

theorem mq_call_no_channel_counterexample:
  "\<not> (\<not> mq_running mqhandler_init \<longrightarrow>
       fst (snd (mq_call forward_accept_all mqhandler_init ''m'' 0)) = [Reject True])"
  by (simp add: mq_call_def mqhandler_init_def)

text \<open>
  C10. When the callback runs while the channel reference is unset, it returns false,
  takes no action on the message (neither ack nor reject) and does not call the forward
  method, whatever the running flag is; a handler with a channel that is not running
  rejects with requeue instead.
\<close>

theorem mq_call_channel_unset:
  assumes "mq_channel h = None"
  shows "mq_call f h body w = (False, [], w) \<and>
         mq_call f (h\<lparr>mq_channel := Some c, mq_running := False\<rparr>) body w = (False, [Reject True], w)"
  using assms by (simp add: mq_call_def)

theorem mq_call_channel_unset_witness:
  "mq_channel (mqhandler_init\<lparr>mq_running := True\<rparr>) = None \<and>
   mq_call forward_accept_all (mqhandler_init\<lparr>mq_running := True\<rparr>) ''m'' 0 = (False, [], 0) \<and>
   mq_call forward_accept_all (mqhandler_init\<lparr>mq_channel := Some \<lparr>consumer_tags = []\<rparr>, mq_running := False\<rparr>) ''m'' 0
     = (False, [Reject True], 0)"
  using mq_call_channel_unset [of "mqhandler_init\<lparr>mq_running := True\<rparr>" forward_accept_all "''m''" 0 "\<lparr>consumer_tags = []\<rparr>"]
  by (simp add: mqhandler_init_def)

section \<open>Properties of publishing\<close>

text \<open>
  C3. The claim has every published message carry content-type \<open>text/plain\<close> and an
  expiration equal to the decimal string of \<open>ttl_from_ws * 1000\<close>. The content type is
  as claimed; the expiration is the decimal string of \<open>ttl_from_ws\<close> itself. With the
  default TTL of 300 seconds the message published carries expiration \<open>300\<close>, where
  the claim (and the test harness, from \<open>300 * 1000\<close>) has \<open>300000\<close>.
\<close>

theorem send_message_expiration_not_milliseconds:
  "ttl_from_ws mqhandler_consuming = 300 \<and>
   send_message mqhandler_consuming True obs_healthy [] ''from_ws'' ''hello'' =
     Inr (True, [QueueDeclare ''from_ws'',
                 TryPublish ''from_ws''
                   \<lparr> msg_body = ''hello'',
                     msg_properties = [(''content_type'', ''text/plain''), (''expiration'', ''300'')] \<rparr>
                   True]) \<and>
   str_int (ttl_from_ws mqhandler_consuming * 1000) = ''300000'' \<and>
   bridgetester_properties = [(''content_type'', ''text/plain''), (''expiration'', ''300000'')]"
proof -
  have ttl: "ttl_from_ws mqhandler_consuming = 300"
    by (simp add: mqhandler_consuming_def mqhandler_init_def)
  have props: "message_properties mqhandler_consuming =
      [(''content_type'', ''text/plain''), (''expiration'', ''300'')]"
    by (simp add: message_properties_def ttl str_int_def digits_of_nat.simps digit_char_def)
  have sent: "send_message mqhandler_consuming True obs_healthy [] ''from_ws'' ''hello'' =
     Inr (True, [QueueDeclare ''from_ws'',
                 TryPublish ''from_ws''
                   \<lparr> msg_body = ''hello'', msg_properties = message_properties mqhandler_consuming \<rparr>
                   True])"
    by code_simp
  have ms: "str_int (ttl_from_ws mqhandler_consuming * 1000) = ''300000''"
    by (simp add: ttl str_int_def digits_of_nat.simps digit_char_def)
  have bt: "bridgetester_properties = [(''content_type'', ''text/plain''), (''expiration'', ''300000'')]"
    by (simp add: bridgetester_properties_def bridgetester_mq_ttl_def str_int_def
        digits_of_nat.simps digit_char_def)
  show ?thesis using ttl sent ms bt unfolding props by simp
qed

text \<open>
  The result of the retry loop: it is true exactly when some iteration \<open>k\<close> below
  \<open>retry_count\<close> publishes, every earlier one failed, and no iteration up to \<open>k\<close> that
  is a retry (\<open>retry_count < max_retries\<close> there) found the channel without consumer
  tags or the running flag cleared.
\<close>

lemma publish_loop_result:
  "fst (publish_loop maxr obs rk msg i rc) \<longleftrightarrow>
     (\<exists>k. int k < rc \<and> publish_ok (obs (i + k)) \<and> (\<forall>j<k. \<not> publish_ok (obs (i + j))) \<and>
          (\<forall>j\<le>k. rc - int j < maxr \<longrightarrow> tags_present (obs (i + j)) \<and> running_now (obs (i + j))))"
proof (induction maxr obs rk msg i rc rule: publish_loop.induct)
  case (1 maxr obs rk msg i rc)
  let ?L = "\<lambda>maxr obs rk msg i rc. fst (publish_loop maxr obs rk msg i rc)"
  let ?P = "\<lambda>i rc k. int k < rc \<and> publish_ok (obs (i + k)) \<and> (\<forall>j<k. \<not> publish_ok (obs (i + j))) \<and>
          (\<forall>j\<le>k. rc - int j < maxr \<longrightarrow> tags_present (obs (i + j)) \<and> running_now (obs (i + j)))"
  show ?case
  proof (cases "rc > 0")
    case False
    then show ?thesis by (simp add: publish_loop.simps [of maxr obs rk msg i rc])
  next
    case pos: True
    show ?thesis
    proof (cases "(\<not> tags_present (obs i) \<or> \<not> running_now (obs i)) \<and> rc < maxr")
      case True
      have "\<not> (\<exists>k. ?P i rc k)"
      proof
        assume "\<exists>k. ?P i rc k"
        then obtain k where k: "?P i rc k" ..
        then have "\<forall>j\<le>k. rc - int j < maxr \<longrightarrow> tags_present (obs (i + j)) \<and> running_now (obs (i + j))"
          by blast
        from this [rule_format, of 0] True show False by simp
      qed
      moreover have "\<not> ?L maxr obs rk msg i rc"
        using pos True by (simp add: publish_loop.simps [of maxr obs rk msg i rc])
      ultimately show ?thesis by blast
    next
      case noabort: False
      show ?thesis
      proof (cases "publish_ok (obs i)")
        case True
        have "?P i rc 0" using pos True noabort by auto
        moreover have "?L maxr obs rk msg i rc"
          using pos True noabort by (simp add: publish_loop.simps [of maxr obs rk msg i rc])
        ultimately show ?thesis by blast
      next
        case fail: False
        have L: "?L maxr obs rk msg i rc \<longleftrightarrow> ?L maxr obs rk msg (Suc i) (rc - 1)"
          using pos noabort fail by (auto simp: publish_loop.simps [of maxr obs rk msg i rc] split: prod.splits)
        have IH: "?L maxr obs rk msg (Suc i) (rc - 1) \<longleftrightarrow> (\<exists>k. ?P (Suc i) (rc - 1) k)"
          using "1.IH" [OF pos noabort fail] .
        have "(\<exists>k. ?P (Suc i) (rc - 1) k) \<longleftrightarrow> (\<exists>k. ?P i rc k)"
        proof
          assume "\<exists>k. ?P (Suc i) (rc - 1) k"
          then obtain k where k: "?P (Suc i) (rc - 1) k" ..
          have "?P i rc (Suc k)"
          proof (intro conjI allI impI)
            show "int (Suc k) < rc" using k by simp
            show "publish_ok (obs (i + Suc k))" using k by simp
            show "\<not> publish_ok (obs (i + j))" if "j < Suc k" for j
              using that k fail by (cases j) auto
            show "tags_present (obs (i + j))" if "j \<le> Suc k" "rc - int j < maxr" for j
            proof (cases j)
              case 0 with that noabort show ?thesis by auto
            next
              case (Suc j')
              with that have "j' \<le> k" "rc - 1 - int j' < maxr" by auto
              with k have "tags_present (obs (Suc i + j'))" by blast
              with Suc show ?thesis by simp
            qed
            show "running_now (obs (i + j))" if "j \<le> Suc k" "rc - int j < maxr" for j
            proof (cases j)
              case 0 with that noabort show ?thesis by auto
            next
              case (Suc j')
              with that have "j' \<le> k" "rc - 1 - int j' < maxr" by auto
              with k have "running_now (obs (Suc i + j'))" by blast
              with Suc show ?thesis by simp
            qed
          qed
          then show "\<exists>k. ?P i rc k" ..
        next
          assume "\<exists>k. ?P i rc k"
          then obtain k where k: "?P i rc k" ..
          with fail have "k \<noteq> 0" by (cases k) auto
          then obtain k' where k': "k = Suc k'" by (cases k) auto
          have "?P (Suc i) (rc - 1) k'"
          proof (intro conjI allI impI)
            show "int k' < rc - 1" using k k' by simp
            show "publish_ok (obs (Suc i + k'))" using k k' by simp
            show "\<not> publish_ok (obs (Suc i + j))" if "j < k'" for j
            proof -
              from that k' have "Suc j < k" by simp
              with k have "\<not> publish_ok (obs (i + Suc j))" by blast
              then show ?thesis by simp
            qed
            show "tags_present (obs (Suc i + j))" if "j \<le> k'" "rc - 1 - int j < maxr" for j
            proof -
              from that k' have "Suc j \<le> k" "rc - int (Suc j) < maxr" by simp_all
              with k have "tags_present (obs (i + Suc j))" by blast
              then show ?thesis by simp
            qed
            show "running_now (obs (Suc i + j))" if "j \<le> k'" "rc - 1 - int j < maxr" for j
            proof -
              from that k' have "Suc j \<le> k" "rc - int (Suc j) < maxr" by simp_all
              with k have "running_now (obs (i + Suc j))" by blast
              then show ?thesis by simp
            qed
          qed
          then show "\<exists>k. ?P (Suc i) (rc - 1) k" ..
        qed
        with L IH show ?thesis by simp
      qed
    qed
  qed
qed



text \<open>
  The effects of the retry loop: some number \<open>n\<close> of failed publishes, each followed by
  a sleep of one second, then the successful publish if there is one.
\<close>

lemma publish_loop_effects:
  "\<exists>n. int n \<le> max 0 rc \<and> (fst (publish_loop maxr obs rk msg i rc) \<longrightarrow> int n < rc) \<and>
       snd (publish_loop maxr obs rk msg i rc) =
         concat (replicate n [TryPublish rk msg False, Sleep 1]) @
         (if fst (publish_loop maxr obs rk msg i rc) then [TryPublish rk msg True] else [])"
proof (induction maxr obs rk msg i rc rule: publish_loop.induct)
  case (1 maxr obs rk msg i rc)
  let ?Q = "\<lambda>maxr obs rk msg i rc n. int n \<le> max 0 rc \<and> (fst (publish_loop maxr obs rk msg i rc) \<longrightarrow> int n < rc) \<and>
       snd (publish_loop maxr obs rk msg i rc) =
         concat (replicate n [TryPublish rk msg False, Sleep 1]) @
         (if fst (publish_loop maxr obs rk msg i rc) then [TryPublish rk msg True] else [])"
  show ?case
  proof (cases "rc > 0")
    case False
    then have "?Q maxr obs rk msg i rc 0" by (simp add: publish_loop.simps [of maxr obs rk msg i rc])
    then show ?thesis ..
  next
    case pos: True
    show ?thesis
    proof (cases "(\<not> tags_present (obs i) \<or> \<not> running_now (obs i)) \<and> rc < maxr")
      case True
      with pos have "?Q maxr obs rk msg i rc 0" by (simp add: publish_loop.simps [of maxr obs rk msg i rc])
      then show ?thesis ..
    next
      case noabort: False
      show ?thesis
      proof (cases "publish_ok (obs i)")
        case True
        with pos noabort have "?Q maxr obs rk msg i rc 0" by (simp add: publish_loop.simps [of maxr obs rk msg i rc])
        then show ?thesis ..
      next
        case fail: False
        from "1.IH" [OF pos noabort fail]
        obtain n where n: "?Q maxr obs rk msg (Suc i) (rc - 1) n" ..
        have unf: "publish_loop maxr obs rk msg i rc =
            (fst (publish_loop maxr obs rk msg (Suc i) (rc - 1)),
             TryPublish rk msg False # Sleep 1 # snd (publish_loop maxr obs rk msg (Suc i) (rc - 1)))"
          using pos noabort fail
          by (auto simp: publish_loop.simps [of maxr obs rk msg i rc] split: prod.splits)
        have "?Q maxr obs rk msg i rc (Suc n)"
          using n pos unfolding unf by auto
        then show ?thesis ..
      qed
    qed
  qed
qed



text \<open>
  The outcome of \<open>send_message\<close> in one statement: some number of failed tries, each
  followed by a sleep, then the successful try if the result is true; and the result is
  true exactly when some try below \<open>max_retries\<close> publishes after failures only, with
  the flags in order at every retry up to it.
\<close>

lemma send_message_outcome:
  assumes "mq_channel h \<noteq> None" and "declare_ok"
  shows "\<exists>r n. send_message h declare_ok obs exchange rk body =
           Inr (r, QueueDeclare rk #
                   concat (replicate n [TryPublish rk \<lparr>msg_body = body, msg_properties = message_properties h\<rparr> False, Sleep 1]) @
                   (if r then [TryPublish rk \<lparr>msg_body = body, msg_properties = message_properties h\<rparr> True] else []))
         \<and> int n \<le> max 0 (max_retries h) \<and> (r \<longrightarrow> int n < max_retries h)
         \<and> (r \<longleftrightarrow> (\<exists>k. int k < max_retries h \<and> publish_ok (obs k) \<and> (\<forall>j<k. \<not> publish_ok (obs j)) \<and>
                       (\<forall>j. 0 < j \<and> j \<le> k \<longrightarrow> tags_present (obs j) \<and> running_now (obs j))))"
proof -
  let ?msg = "\<lparr>msg_body = body, msg_properties = message_properties h\<rparr>"
  let ?res = "publish_loop (max_retries h) obs rk ?msg 0 (max_retries h)"
  from publish_loop_effects [of "max_retries h" "max_retries h" obs rk ?msg 0]
  obtain n where n: "int n \<le> max 0 (max_retries h)" "fst ?res \<longrightarrow> int n < max_retries h"
    "snd ?res = concat (replicate n [TryPublish rk ?msg False, Sleep 1]) @
         (if fst ?res then [TryPublish rk ?msg True] else [])"
    by blast
  have iff: "fst ?res \<longleftrightarrow> (\<exists>k. int k < max_retries h \<and> publish_ok (obs k) \<and> (\<forall>j<k. \<not> publish_ok (obs j)) \<and>
                       (\<forall>j. 0 < j \<and> j \<le> k \<longrightarrow> tags_present (obs j) \<and> running_now (obs j)))"
  proof -
    have flags: "(\<forall>j\<le>k. max_retries h - int j < max_retries h \<longrightarrow>
                     tags_present (obs (0 + j)) \<and> running_now (obs (0 + j))) =
                 (\<forall>j. 0 < j \<and> j \<le> k \<longrightarrow> tags_present (obs j) \<and> running_now (obs j))" for k
      by simp blast
    show ?thesis
      unfolding publish_loop_result [of "max_retries h" obs rk ?msg 0 "max_retries h"] flags
      by simp
  qed
  from assms obtain c where c: "mq_channel h = Some c" by auto
  have sm: "send_message h declare_ok obs exchange rk body = Inr (fst ?res, QueueDeclare rk # snd ?res)"
    using assms(2) c by (simp add: send_message_def split: prod.splits)
  show ?thesis
  proof (intro exI conjI)
    show "send_message h declare_ok obs exchange rk body =
           Inr (fst ?res, QueueDeclare rk #
                   concat (replicate n [TryPublish rk ?msg False, Sleep 1]) @
                   (if fst ?res then [TryPublish rk ?msg True] else []))"
      using sm n(3) by simp
    show "int n \<le> max 0 (max_retries h)" by (rule n(1))
    show "fst ?res \<longrightarrow> int n < max_retries h" by (rule n(2))
    show "fst ?res \<longleftrightarrow> (\<exists>k. int k < max_retries h \<and> publish_ok (obs k) \<and> (\<forall>j<k. \<not> publish_ok (obs j)) \<and>
                       (\<forall>j. 0 < j \<and> j \<le> k \<longrightarrow> tags_present (obs j) \<and> running_now (obs j)))"
      by (rule iff)
  qed
qed




text \<open>
  A run of failed tries: if the next \<open>k\<close> iterations all fail to publish and none of
  them that is a retry finds the flags out of order, the loop makes these \<open>k\<close> tries,
  sleeps a second after each, and goes on from iteration \<open>i + k\<close> with \<open>k\<close> retries
  fewer.
\<close>

lemma publish_loop_failed_prefix:
  "int k \<le> rc \<Longrightarrow> (\<forall>j<k. \<not> publish_ok (obs (i + j))) \<Longrightarrow>
   (\<forall>j<k. rc - int j < maxr \<longrightarrow> tags_present (obs (i + j)) \<and> running_now (obs (i + j))) \<Longrightarrow>
     publish_loop maxr obs rk msg i rc =
       (fst (publish_loop maxr obs rk msg (i + k) (rc - int k)),
        concat (replicate k [TryPublish rk msg False, Sleep 1]) @
          snd (publish_loop maxr obs rk msg (i + k) (rc - int k)))"
proof (induction k arbitrary: i rc)
  case 0
  then show ?case by simp
next
  case (Suc k)
  have pos: "rc > 0" using Suc.prems(1) by simp
  have fail: "\<not> publish_ok (obs i)"
    using Suc.prems(2) [rule_format, of 0] by simp
  have noabort: "\<not> ((\<not> tags_present (obs i) \<or> \<not> running_now (obs i)) \<and> rc < maxr)"
    using Suc.prems(3) [rule_format, of 0] by auto
  have unf: "publish_loop maxr obs rk msg i rc =
      (fst (publish_loop maxr obs rk msg (Suc i) (rc - 1)),
       TryPublish rk msg False # Sleep 1 # snd (publish_loop maxr obs rk msg (Suc i) (rc - 1)))"
    using pos noabort fail
    by (auto simp: publish_loop.simps [of maxr obs rk msg i rc] split: prod.splits)
  have p1: "int k \<le> rc - 1" using Suc.prems(1) by simp
  have p2: "\<forall>j<k. \<not> publish_ok (obs (Suc i + j))"
  proof (intro allI impI)
    fix j assume "j < k"
    then have "Suc j < Suc k" by simp
    from Suc.prems(2) [rule_format, OF this] show "\<not> publish_ok (obs (Suc i + j))" by simp
  qed
  have p3: "\<forall>j<k. rc - 1 - int j < maxr \<longrightarrow>
               tags_present (obs (Suc i + j)) \<and> running_now (obs (Suc i + j))"
  proof (intro allI impI)
    fix j assume j: "j < k" and r: "rc - 1 - int j < maxr"
    from j have "Suc j < Suc k" by simp
    moreover from r have "rc - int (Suc j) < maxr" by simp
    ultimately have "tags_present (obs (i + Suc j)) \<and> running_now (obs (i + Suc j))"
      using Suc.prems(3) by blast
    then show "tags_present (obs (Suc i + j)) \<and> running_now (obs (Suc i + j))" by simp
  qed
  have shift: "rc - 1 - int k = rc - int (Suc k)" "Suc i + k = i + Suc k" by simp_all
  show ?case
    unfolding unf Suc.IH [OF p1 p2 p3] shift by simp
qed

text \<open>
  C6, as amended. Let the first \<open>k\<close> tries fail, with running set and consumer tags
  present at each of them that is a retry. Then \<open>send_message\<close> (on a handler with a
  channel, the queue declaration going through) makes exactly these \<open>k\<close> tries, sleeps
  one second after each, and then: if \<open>k < max_retries\<close> and try \<open>k\<close> publishes (for
  \<open>k = 0\<close>, the first try, whatever the flags are), it makes that try and returns true;
  if \<open>k\<close> is a retry below \<open>max_retries\<close> that finds running false or no consumer
  tags, it aborts without a further try and returns false; if \<open>k = max_retries\<close>, the
  retries are spent and it returns false. With \<open>max_retries \<le> 0\<close> no try is made.
  Every run is one of these cases, so the operation tries at most \<open>max_retries\<close> times
  and returns true exactly when a try succeeds.
\<close>

theorem send_message_retry_contract:
  assumes "mq_channel h \<noteq> None" and "declare_ok"
    and "\<forall>j<k. \<not> publish_ok (obs j)"
    and "\<forall>j. 0 < j \<and> j < k \<longrightarrow> tags_present (obs j) \<and> running_now (obs j)"
  shows "(int k < max_retries h \<and> publish_ok (obs k) \<and>
            (0 < k \<longrightarrow> tags_present (obs k) \<and> running_now (obs k)) \<longrightarrow>
          send_message h declare_ok obs exchange rk body =
            Inr (True, QueueDeclare rk #
                   concat (replicate k [TryPublish rk \<lparr>msg_body = body, msg_properties = message_properties h\<rparr> False, Sleep 1]) @
                   [TryPublish rk \<lparr>msg_body = body, msg_properties = message_properties h\<rparr> True])) \<and>
         (0 < k \<and> int k < max_retries h \<and> \<not> (tags_present (obs k) \<and> running_now (obs k)) \<longrightarrow>
          send_message h declare_ok obs exchange rk body =
            Inr (False, QueueDeclare rk #
                   concat (replicate k [TryPublish rk \<lparr>msg_body = body, msg_properties = message_properties h\<rparr> False, Sleep 1]))) \<and>
         (int k = max_retries h \<longrightarrow>
          send_message h declare_ok obs exchange rk body =
            Inr (False, QueueDeclare rk #
                   concat (replicate k [TryPublish rk \<lparr>msg_body = body, msg_properties = message_properties h\<rparr> False, Sleep 1]))) \<and>
         (max_retries h \<le> 0 \<longrightarrow>
          send_message h declare_ok obs exchange rk body = Inr (False, [QueueDeclare rk]))"
proof -
  let ?msg = "\<lparr>msg_body = body, msg_properties = message_properties h\<rparr>"
  let ?m = "max_retries h"
  let ?fails = "concat (replicate k [TryPublish rk ?msg False, Sleep 1])"
  from assms(1) obtain c where c: "mq_channel h = Some c" by auto
  have sm: "send_message h declare_ok obs exchange rk body =
      Inr (fst (publish_loop ?m obs rk ?msg 0 ?m), QueueDeclare rk # snd (publish_loop ?m obs rk ?msg 0 ?m))"
    using assms(2) c by (simp add: send_message_def split: prod.splits)
  have f0: "\<forall>j<k. \<not> publish_ok (obs (0 + j))" using assms(3) by simp
  have g0: "\<forall>j<k. ?m - int j < ?m \<longrightarrow> tags_present (obs (0 + j)) \<and> running_now (obs (0 + j))"
  proof (intro allI impI)
    fix j assume "j < k" and "?m - int j < ?m"
    then have "0 < j \<and> j < k" by simp
    with assms(4) show "tags_present (obs (0 + j)) \<and> running_now (obs (0 + j))" by simp
  qed
  have pre: "publish_loop ?m obs rk ?msg 0 ?m =
      (fst (publish_loop ?m obs rk ?msg k (?m - int k)),
       ?fails @ snd (publish_loop ?m obs rk ?msg k (?m - int k)))"
    if "int k \<le> ?m"
    using publish_loop_failed_prefix [OF that f0 g0, of rk ?msg] by simp
  have ok: "send_message h declare_ok obs exchange rk body =
      Inr (True, QueueDeclare rk # ?fails @ [TryPublish rk ?msg True])"
    if a: "int k < ?m \<and> publish_ok (obs k) \<and> (0 < k \<longrightarrow> tags_present (obs k) \<and> running_now (obs k))"
  proof -
    from a have le: "int k \<le> ?m" by simp
    have "publish_loop ?m obs rk ?msg k (?m - int k) = (True, [TryPublish rk ?msg True])"
      using a by (auto simp: publish_loop.simps [of ?m obs rk ?msg k "?m - int k"])
    then show ?thesis unfolding sm pre [OF le] by simp
  qed
  have abort: "send_message h declare_ok obs exchange rk body = Inr (False, QueueDeclare rk # ?fails)"
    if a: "0 < k \<and> int k < ?m \<and> \<not> (tags_present (obs k) \<and> running_now (obs k))"
  proof -
    from a have le: "int k \<le> ?m" by simp
    have "publish_loop ?m obs rk ?msg k (?m - int k) = (False, [])"
      using a by (auto simp: publish_loop.simps [of ?m obs rk ?msg k "?m - int k"])
    then show ?thesis unfolding sm pre [OF le] by simp
  qed
  have spent: "send_message h declare_ok obs exchange rk body = Inr (False, QueueDeclare rk # ?fails)"
    if a: "int k = ?m"
  proof -
    from a have le: "int k \<le> ?m" by simp
    have "publish_loop ?m obs rk ?msg k 0 = (False, [])"
      by (simp add: publish_loop.simps [of ?m obs rk ?msg k 0])
    with a have "publish_loop ?m obs rk ?msg k (?m - int k) = (False, [])" by simp
    then show ?thesis unfolding sm pre [OF le] by simp
  qed
  have none: "send_message h declare_ok obs exchange rk body = Inr (False, [QueueDeclare rk])"
    if a: "?m \<le> 0"
  proof -
    have "publish_loop ?m obs rk ?msg 0 ?m = (False, [])"
      using a by (simp add: publish_loop.simps [of ?m obs rk ?msg 0 ?m])
    then show ?thesis unfolding sm by simp
  qed
  show ?thesis
  proof (intro conjI impI)
    show "send_message h declare_ok obs exchange rk body =
            Inr (True, QueueDeclare rk # ?fails @ [TryPublish rk ?msg True])"
      if "int k < ?m \<and> publish_ok (obs k) \<and> (0 < k \<longrightarrow> tags_present (obs k) \<and> running_now (obs k))"
      using ok [OF that] .
    show "send_message h declare_ok obs exchange rk body = Inr (False, QueueDeclare rk # ?fails)"
      if "0 < k \<and> int k < ?m \<and> \<not> (tags_present (obs k) \<and> running_now (obs k))"
      using abort [OF that] .
    show "send_message h declare_ok obs exchange rk body = Inr (False, QueueDeclare rk # ?fails)"
      if "int k = ?m"
      using spent [OF that] .
    show "send_message h declare_ok obs exchange rk body = Inr (False, [QueueDeclare rk])"
      if "?m \<le> 0"
      using none [OF that] .
  qed
qed

text \<open>
  Instances with \<open>max_retries = 5\<close>: a broker that accepts the third try; a handler
  whose running flag is cleared after the first try, which aborts before the second; a
  broker that never accepts, where five tries and five sleeps are made.
\<close>

theorem send_message_retry_contract_witness:
  "mq_channel mqhandler_consuming \<noteq> None \<and>
   send_message mqhandler_consuming True obs_third_try_ok [] ''q'' ''b'' =
     Inr (True, [QueueDeclare ''q'',
        TryPublish ''q'' \<lparr>msg_body = ''b'', msg_properties = message_properties mqhandler_consuming\<rparr> False, Sleep 1,
        TryPublish ''q'' \<lparr>msg_body = ''b'', msg_properties = message_properties mqhandler_consuming\<rparr> False, Sleep 1,
        TryPublish ''q'' \<lparr>msg_body = ''b'', msg_properties = message_properties mqhandler_consuming\<rparr> True]) \<and>
   send_message mqhandler_consuming True obs_stopped_after_first [] ''q'' ''b'' =
     Inr (False, [QueueDeclare ''q'',
        TryPublish ''q'' \<lparr>msg_body = ''b'', msg_properties = message_properties mqhandler_consuming\<rparr> False, Sleep 1]) \<and>
   send_message mqhandler_consuming True obs_never_accepts [] ''q'' ''b'' =
     Inr (False, [QueueDeclare ''q'',
        TryPublish ''q'' \<lparr>msg_body = ''b'', msg_properties = message_properties mqhandler_consuming\<rparr> False, Sleep 1,
        TryPublish ''q'' \<lparr>msg_body = ''b'', msg_properties = message_properties mqhandler_consuming\<rparr> False, Sleep 1,
        TryPublish ''q'' \<lparr>msg_body = ''b'', msg_properties = message_properties mqhandler_consuming\<rparr> False, Sleep 1,
        TryPublish ''q'' \<lparr>msg_body = ''b'', msg_properties = message_properties mqhandler_consuming\<rparr> False, Sleep 1,
        TryPublish ''q'' \<lparr>msg_body = ''b'', msg_properties = message_properties mqhandler_consuming\<rparr> False, Sleep 1])"
proof -
  have ch: "mq_channel mqhandler_consuming \<noteq> None"
    by (simp add: mqhandler_consuming_def)
  have mr: "max_retries mqhandler_consuming = 5"
    by (simp add: mqhandler_consuming_def mqhandler_init_def)
  have f2: "\<forall>j<2. \<not> publish_ok (obs_third_try_ok j)"
    by (simp add: obs_third_try_ok_def)
  have g2: "\<forall>j. 0 < j \<and> j < 2 \<longrightarrow> tags_present (obs_third_try_ok j) \<and> running_now (obs_third_try_ok j)"
    by (simp add: obs_third_try_ok_def)
  have a2: "int 2 < max_retries mqhandler_consuming \<and> publish_ok (obs_third_try_ok 2) \<and>
      (0 < (2::nat) \<longrightarrow> tags_present (obs_third_try_ok 2) \<and> running_now (obs_third_try_ok 2))"
    by (simp add: mr obs_third_try_ok_def)
  from send_message_retry_contract [OF ch TrueI f2 g2, of "[]" "''q''" "''b''"] a2
  have third: "send_message mqhandler_consuming True obs_third_try_ok [] ''q'' ''b'' =
     Inr (True, [QueueDeclare ''q'',
        TryPublish ''q'' \<lparr>msg_body = ''b'', msg_properties = message_properties mqhandler_consuming\<rparr> False, Sleep 1,
        TryPublish ''q'' \<lparr>msg_body = ''b'', msg_properties = message_properties mqhandler_consuming\<rparr> False, Sleep 1,
        TryPublish ''q'' \<lparr>msg_body = ''b'', msg_properties = message_properties mqhandler_consuming\<rparr> True])"
    by (simp add: eval_nat_numeral)
  have f1: "\<forall>j<1. \<not> publish_ok (obs_stopped_after_first j)"
    by (simp add: obs_stopped_after_first_def)
  have g1: "\<forall>j. 0 < j \<and> j < 1 \<longrightarrow>
      tags_present (obs_stopped_after_first j) \<and> running_now (obs_stopped_after_first j)"
    by simp
  have a1: "0 < (1::nat) \<and> int 1 < max_retries mqhandler_consuming \<and>
      \<not> (tags_present (obs_stopped_after_first 1) \<and> running_now (obs_stopped_after_first 1))"
    by (simp add: mr obs_stopped_after_first_def)
  from send_message_retry_contract [OF ch TrueI f1 g1, of "[]" "''q''" "''b''"] a1
  have stopped: "send_message mqhandler_consuming True obs_stopped_after_first [] ''q'' ''b'' =
     Inr (False, [QueueDeclare ''q'',
        TryPublish ''q'' \<lparr>msg_body = ''b'', msg_properties = message_properties mqhandler_consuming\<rparr> False, Sleep 1])"
    by simp
  have f5: "\<forall>j<5. \<not> publish_ok (obs_never_accepts j)"
    by (simp add: obs_never_accepts_def)
  have g5: "\<forall>j. 0 < j \<and> j < 5 \<longrightarrow> tags_present (obs_never_accepts j) \<and> running_now (obs_never_accepts j)"
    by (simp add: obs_never_accepts_def)
  have a5: "int 5 = max_retries mqhandler_consuming"
    by (simp add: mr)
  from send_message_retry_contract [OF ch TrueI f5 g5, of "[]" "''q''" "''b''"] a5
  have never: "send_message mqhandler_consuming True obs_never_accepts [] ''q'' ''b'' =
     Inr (False, [QueueDeclare ''q'',
        TryPublish ''q'' \<lparr>msg_body = ''b'', msg_properties = message_properties mqhandler_consuming\<rparr> False, Sleep 1,
        TryPublish ''q'' \<lparr>msg_body = ''b'', msg_properties = message_properties mqhandler_consuming\<rparr> False, Sleep 1,
        TryPublish ''q'' \<lparr>msg_body = ''b'', msg_properties = message_properties mqhandler_consuming\<rparr> False, Sleep 1,
        TryPublish ''q'' \<lparr>msg_body = ''b'', msg_properties = message_properties mqhandler_consuming\<rparr> False, Sleep 1,
        TryPublish ''q'' \<lparr>msg_body = ''b'', msg_properties = message_properties mqhandler_consuming\<rparr> False, Sleep 1])"
    by (simp add: eval_nat_numeral)
  from ch third stopped never show ?thesis by blast
qed

text \<open>
  C6 as stated fails on the first try: with the running flag cleared at every
  iteration and all five retries remaining, the operation does not abort; it publishes
  and returns true.
\<close>

theorem send_message_first_try_counterexample:
  "\<not> running_now (obs_stopped_publish_ok 0) \<and> 0 < max_retries mqhandler_consuming \<and>
   send_message mqhandler_consuming True obs_stopped_publish_ok [] ''q'' ''b'' =
     Inr (True, [QueueDeclare ''q'',
        TryPublish ''q'' \<lparr>msg_body = ''b'', msg_properties = message_properties mqhandler_consuming\<rparr> True])"
  by code_simp

section \<open>Properties of connecting\<close>

text \<open>
  The sleeps of the connect loop: started with \<open>a\<close> attempts made, a loop that ends
  with \<open>m\<close> attempts made slept once after each of the attempts \<open>a + 1, \<dots>, m - 1\<close>,
  for \<open>min (n * 2) 30\<close> seconds after attempt \<open>n\<close>.
\<close>

lemma create_connection_loop_sleeps:
  "mq_running h \<Longrightarrow> create_connection_loop script a h sl = Some (m, h', sl') \<Longrightarrow>
     a < m \<and> sl' = sl @ map (\<lambda>n. min (int n * 2) 30) [Suc a..<m]"
proof (induction script arbitrary: a h sl)
  case Nil
  then show ?case by simp
next
  case (Cons out script)
  let ?h = "h\<lparr>mq_metrics := when_metrics (mq_metrics h)
                    (\<lambda>m. m\<lparr>count_mq_connection_attempts := int (Suc a)\<rparr>)\<rparr>"
  show ?case
  proof (cases out)
    case (Connected c)
    with Cons.prems show ?thesis by (auto simp: Let_def)
  next
    case ConnectInterrupted
    with Cons.prems show ?thesis by (auto simp: Let_def)
  next
    case ConnectFails
    show ?thesis
    proof (cases "max_retries h \<noteq> 0 \<and> int (Suc a) > max_retries h")
      case True
      with ConnectFails Cons.prems show ?thesis by (auto simp: Let_def)
    next
      case False
      with ConnectFails Cons.prems
      have rec: "create_connection_loop script (Suc a) ?h (sl @ [min (int (Suc a) * 2) 30]) = Some (m, h', sl')"
        by (auto simp: Let_def)
      have run: "mq_running ?h" using Cons.prems(1) by simp
      from Cons.IH [OF run rec]
      have lt: "Suc a < m" and eq: "sl' = (sl @ [min (int (Suc a) * 2) 30]) @ map (\<lambda>n. min (int n * 2) 30) [Suc (Suc a)..<m]"
        by simp_all
      from lt have "[Suc a..<m] = Suc a # [Suc (Suc a)..<m]"
        by (simp add: upt_conv_Cons)
      with lt eq show ?thesis by simp
    qed
  qed
qed


text \<open>
  With a retry limit the loop ends: a script longer than the limit always gives a
  result.
\<close>

lemma create_connection_loop_returns:
  "0 < max_retries h \<Longrightarrow> nat (max_retries h) - a < length script \<Longrightarrow>
     \<exists>r. create_connection_loop script a h sl = Some r"
proof (induction script arbitrary: a h sl)
  case Nil
  then show ?case by simp
next
  case (Cons out script)
  show ?case
  proof (cases "mq_running h")
    case False
    then show ?thesis by simp
  next
    case run: True
    let ?h = "h\<lparr>mq_metrics := when_metrics (mq_metrics h)
                    (\<lambda>m. m\<lparr>count_mq_connection_attempts := int (Suc a)\<rparr>)\<rparr>"
    show ?thesis
    proof (cases out)
      case (Connected c)
      with run show ?thesis by (simp add: Let_def)
    next
      case ConnectInterrupted
      with run show ?thesis by (simp add: Let_def)
    next
      case ConnectFails
      show ?thesis
      proof (cases "int (Suc a) > max_retries h")
        case True
        with ConnectFails run Cons.prems show ?thesis by (simp add: Let_def)
      next
        case False
        have mr: "0 < max_retries ?h" using Cons.prems(1) by simp
        have len: "nat (max_retries ?h) - Suc a < length script"
          using Cons.prems False by auto
        from Cons.IH [OF mr len]
        obtain r where "create_connection_loop script (Suc a) ?h (sl @ [min (int (Suc a) * 2) 30]) = Some r"
          by blast
        with ConnectFails run False show ?thesis by (cases r) (simp add: Let_def)
      qed
    qed
  qed
qed

text \<open>
  Whatever the script, a result with \<open>m\<close> attempts comes with the sleeps of the
  attempts \<open>1, \<dots>, m - 1\<close>, none longer than 30 seconds.
\<close>

lemma create_connection_result_sleeps:
  assumes "create_connection script h = Some (m, h', sleeps)"
  shows "sleeps = map (\<lambda>n. min (int n * 2) 30) [1..<m] \<and> (\<forall>d \<in> set sleeps. d \<le> 30)"
proof (cases "mq_running h")
  case True
  from create_connection_loop_sleeps [OF True assms [unfolded create_connection_def]]
  have "sleeps = map (\<lambda>n. min (int n * 2) 30) [1..<m]" by simp
  then show ?thesis by auto
next
  case False
  with assms have "m = 0" "sleeps = []"
    by (cases script; simp add: create_connection_def)+
  then show ?thesis by simp
qed


text \<open>
  A run of failures: when the next \<open>k\<close> connects fail and the retry limit is not
  passed, the loop makes these \<open>k\<close> attempts, sleeps \<open>min (n * 2) 30\<close> seconds after
  attempt \<open>n\<close>, and goes on with the rest of the script. Successive assignments to the
  counter leave the last one.
\<close>

lemma when_metrics_overwrite:
  "when_metrics (when_metrics mo (\<lambda>m. m\<lparr>count_mq_connection_attempts := a\<rparr>))
       (\<lambda>m. m\<lparr>count_mq_connection_attempts := b\<rparr>) =
     when_metrics mo (\<lambda>m. m\<lparr>count_mq_connection_attempts := b\<rparr>)"
  by (cases mo) (simp_all add: when_metrics_def)

lemma attempted_step:
  "attempted (Suc (a + k)) (attempted (Suc a) h) = attempted (Suc (a + k)) h"
  by (simp add: attempted_def when_metrics_overwrite)

lemma attempted_fields [simp]:
  "mq_running (attempted n h) = mq_running h"
  "max_retries (attempted n h) = max_retries h"
  by (simp_all add: attempted_def)

lemma create_connection_loop_failures:
  "mq_running h \<Longrightarrow> max_retries h = 0 \<or> int (a + k) \<le> max_retries h \<Longrightarrow>
     create_connection_loop (replicate k ConnectFails @ rest) a (attempted a h) sl =
       create_connection_loop rest (a + k) (attempted (a + k) h)
         (sl @ map (\<lambda>n. min (int n * 2) 30) [Suc a..<Suc (a + k)])"
proof (induction k arbitrary: a sl)
  case 0
  then show ?case by simp
next
  case (Suc k)
  have budget: "\<not> (max_retries h \<noteq> 0 \<and> int (Suc a) > max_retries h)"
    using Suc.prems(2) by auto
  have step: "create_connection_loop (replicate (Suc k) ConnectFails @ rest) a (attempted a h) sl =
      create_connection_loop (replicate k ConnectFails @ rest) (Suc a) (attempted (Suc a) h)
        (sl @ [min (int (Suc a) * 2) 30])"
  proof (cases a)
    case 0
    with Suc.prems(1) budget show ?thesis by (auto simp: Let_def attempted_def)
  next
    case (Suc a')
    with Suc.prems(1) budget show ?thesis
      by (auto simp: Let_def attempted_def when_metrics_overwrite)
  qed
  have b2: "max_retries h = 0 \<or> int (Suc a + k) \<le> max_retries h"
    using Suc.prems(2) by simp
  have upt: "[Suc a..<Suc (a + Suc k)] = Suc a # [Suc (Suc a)..<Suc (Suc a + k)]"
    by (simp add: upt_conv_Cons)
  show ?case
    unfolding step Suc.IH [OF Suc.prems(1) b2] upt by simp
qed

lemma attempted_next:
  "(attempted k h)\<lparr>mq_metrics := when_metrics (mq_metrics (attempted k h))
        (\<lambda>m. m\<lparr>count_mq_connection_attempts := int (Suc k)\<rparr>)\<rparr> = attempted (Suc k) h"
  by (simp add: attempted_def when_metrics_overwrite)

text \<open>
  C5. On a running handler, let the first \<open>k\<close> connects fail without passing the retry
  limit. Then \<open>create_connection\<close> has made the attempts \<open>1, \<dots>, k\<close> and slept exactly
  once after each of them, \<open>min (n * 2) 30\<close> seconds after attempt \<open>n\<close>, before it
  retries: it goes on with what follows as attempt \<open>k + 1\<close>. If that attempt connects
  or is interrupted, or fails beyond the retry limit, the call returns with these \<open>k\<close>
  sleeps and no other. No sleep is longer than 30 seconds, however many attempts
  precede.
\<close>

theorem create_connection_backoff:
  assumes "mq_running h" and "max_retries h = 0 \<or> int k \<le> max_retries h"
  shows "create_connection (replicate k ConnectFails @ rest) h =
           create_connection_loop rest k (attempted k h)
             (map (\<lambda>n. min (int n * 2) 30) [1..<Suc k]) \<and>
         create_connection (replicate k ConnectFails @ Connected c # rest) h =
           Some (Suc k, (attempted (Suc k) h)\<lparr>mq_connection := Some c\<rparr>,
                 map (\<lambda>n. min (int n * 2) 30) [1..<Suc k]) \<and>
         create_connection (replicate k ConnectFails @ ConnectInterrupted # rest) h =
           Some (Suc k, (attempted (Suc k) h)\<lparr>mq_running := False\<rparr>,
                 map (\<lambda>n. min (int n * 2) 30) [1..<Suc k]) \<and>
         (max_retries h \<noteq> 0 \<and> int k = max_retries h \<longrightarrow>
            create_connection (replicate k ConnectFails @ ConnectFails # rest) h =
              Some (Suc k, (attempted (Suc k) h)\<lparr>mq_running := False\<rparr>,
                    map (\<lambda>n. min (int n * 2) 30) [1..<Suc k])) \<and>
         (\<forall>d \<in> set (map (\<lambda>n. min (int n * 2) 30) [1..<Suc k]). d \<le> 30)"
proof -
  let ?sl = "map (\<lambda>n. min (int n * 2) 30) [1..<Suc k]"
  have pre: "create_connection (replicate k ConnectFails @ r) h =
           create_connection_loop r k (attempted k h) ?sl" for r
    using create_connection_loop_failures [OF assms(1), of 0 k r "[]"] assms(2)
    by (simp add: create_connection_def attempted_def)
  have run: "mq_running (attempted k h)" using assms(1) by simp
  have a: "create_connection_loop (Connected c # rest) k (attempted k h) ?sl =
      Some (Suc k, (attempted (Suc k) h)\<lparr>mq_connection := Some c\<rparr>, ?sl)"
    using run by (simp add: Let_def attempted_next [simplified] del: upt_Suc)
  have b: "create_connection_loop (ConnectInterrupted # rest) k (attempted k h) ?sl =
      Some (Suc k, (attempted (Suc k) h)\<lparr>mq_running := False\<rparr>, ?sl)"
    using run by (simp add: Let_def attempted_next [simplified] del: upt_Suc)
  have c: "create_connection_loop (ConnectFails # rest) k (attempted k h) ?sl =
      Some (Suc k, (attempted (Suc k) h)\<lparr>mq_running := False\<rparr>, ?sl)"
    if lim: "max_retries h \<noteq> 0 \<and> int k = max_retries h"
  proof -
    from lim have ex: "max_retries h \<noteq> 0" "max_retries h < 1 + int k" by auto
    show ?thesis
      using run ex by (simp add: Let_def attempted_next [simplified] del: upt_Suc)
  qed
  have d: "\<forall>d \<in> set ?sl. d \<le> 30" by auto
  show ?thesis
  proof (intro conjI impI)
    show "create_connection (replicate k ConnectFails @ rest) h =
           create_connection_loop rest k (attempted k h) ?sl"
      by (rule pre)
    show "create_connection (replicate k ConnectFails @ Connected c # rest) h =
           Some (Suc k, (attempted (Suc k) h)\<lparr>mq_connection := Some c\<rparr>, ?sl)"
      unfolding pre by (rule a)
    show "create_connection (replicate k ConnectFails @ ConnectInterrupted # rest) h =
           Some (Suc k, (attempted (Suc k) h)\<lparr>mq_running := False\<rparr>, ?sl)"
      unfolding pre by (rule b)
    show "create_connection (replicate k ConnectFails @ ConnectFails # rest) h =
              Some (Suc k, (attempted (Suc k) h)\<lparr>mq_running := False\<rparr>, ?sl)"
      if "max_retries h \<noteq> 0 \<and> int k = max_retries h"
      unfolding pre by (rule c [OF that])
    show "\<forall>d \<in> set ?sl. d \<le> 30" by (rule d)
  qed
qed

text \<open>
  Instances with the limit of 5 retries: five failures are followed by sleeps of 2, 4,
  6, 8 and 10 seconds; a sixth failure ends the call, and so does a connect at the
  sixth attempt.
\<close>

theorem create_connection_backoff_witness:
  "mq_running mqhandler_started \<and>
   (max_retries mqhandler_started = 0 \<or> int 5 \<le> max_retries mqhandler_started) \<and>
   create_connection (replicate 5 ConnectFails @ [ConnectFails]) mqhandler_started =
     Some (6, mqhandler_started\<lparr>mq_running := False,
                 mq_metrics := Some (metrics_init\<lparr>metrics_enabled := True, count_mq_connection_attempts := 6\<rparr>)\<rparr>,
           [2, 4, 6, 8, 10]) \<and>
   create_connection (replicate 5 ConnectFails @ [Connected 7]) mqhandler_started =
     Some (6, mqhandler_started\<lparr>mq_connection := Some 7,
                 mq_metrics := Some (metrics_init\<lparr>metrics_enabled := True, count_mq_connection_attempts := 6\<rparr>)\<rparr>,
           [2, 4, 6, 8, 10])"
proof -
  have run: "mq_running mqhandler_started"
    by (simp add: mqhandler_started_def)
  have budget: "max_retries mqhandler_started = 0 \<or> int 5 \<le> max_retries mqhandler_started"
    by (simp add: mqhandler_started_def mqhandler_init_def)
  have lim: "max_retries mqhandler_started \<noteq> 0 \<and> int 5 = max_retries mqhandler_started"
    by (simp add: mqhandler_started_def mqhandler_init_def)
  have sl: "map (\<lambda>n. min (int n * 2) 30) [1..<Suc 5] = [2, 4, 6, 8, 10]"
    by code_simp
  have h1: "(attempted (Suc 5) mqhandler_started)\<lparr>mq_running := False\<rparr> =
      mqhandler_started\<lparr>mq_running := False,
                 mq_metrics := Some (metrics_init\<lparr>metrics_enabled := True, count_mq_connection_attempts := 6\<rparr>)\<rparr>"
    by code_simp
  have h2: "(attempted (Suc 5) mqhandler_started)\<lparr>mq_connection := Some 7\<rparr> =
      mqhandler_started\<lparr>mq_connection := Some 7,
                 mq_metrics := Some (metrics_init\<lparr>metrics_enabled := True, count_mq_connection_attempts := 6\<rparr>)\<rparr>"
    by code_simp
  note inst = create_connection_backoff [OF run budget, of "[]" 7, unfolded sl h1 h2]
  from inst have e1: "create_connection (replicate 5 ConnectFails @ [Connected 7]) mqhandler_started =
     Some (6, mqhandler_started\<lparr>mq_connection := Some 7,
                 mq_metrics := Some (metrics_init\<lparr>metrics_enabled := True, count_mq_connection_attempts := 6\<rparr>)\<rparr>,
           [2, 4, 6, 8, 10])"
    by simp
  from inst lim have e2: "create_connection (replicate 5 ConnectFails @ [ConnectFails]) mqhandler_started =
     Some (6, mqhandler_started\<lparr>mq_running := False,
                 mq_metrics := Some (metrics_init\<lparr>metrics_enabled := True, count_mq_connection_attempts := 6\<rparr>)\<rparr>,
           [2, 4, 6, 8, 10])"
    by simp
  from run budget e1 e2 show ?thesis by blast
qed

text \<open>
  Without a limit the sleeps reach 30 seconds at the fifteenth failure and stay there.
\<close>

lemma create_connection_cap_reached:
  "\<exists>h'. create_connection (replicate 20 ConnectFails @ [Connected 7]) (mqhandler_started\<lparr>max_retries := 0\<rparr>) =
     Some (21, h', [2, 4, 6, 8, 10, 12, 14, 16, 18, 20, 22, 24, 26, 28, 30, 30, 30, 30, 30, 30])"
proof -
  have e: "snd (snd (the (create_connection (replicate 20 ConnectFails @ [Connected 7]) (mqhandler_started\<lparr>max_retries := 0\<rparr>)))) =
      [2, 4, 6, 8, 10, 12, 14, 16, 18, 20, 22, 24, 26, 28, 30, 30, 30, 30, 30, 30] \<and>
     fst (the (create_connection (replicate 20 ConnectFails @ [Connected 7]) (mqhandler_started\<lparr>max_retries := 0\<rparr>))) = 21 \<and>
     create_connection (replicate 20 ConnectFails @ [Connected 7]) (mqhandler_started\<lparr>max_retries := 0\<rparr>) \<noteq> None"
    by code_simp
  then show ?thesis
    by (cases "create_connection (replicate 20 ConnectFails @ [Connected 7]) (mqhandler_started\<lparr>max_retries := 0\<rparr>)") auto
qed

text \<open>
  C7. The claim has no update ever lower a counter. \<open>create_connection\<close> assigns the
  local \<open>attempts\<close>, which starts from 0 in every call, to the broker-connect-attempts
  counter. A first call that connects at the third attempt leaves the counter at 3; the
  reconnect that \<open>consume_messages\<close> makes after a transport error connects at once
  and sets it to 1.
\<close>

theorem create_connection_counter_decreases:
  "create_connection [ConnectFails, ConnectFails, Connected 1] mqhandler_started =
     Some (3, mqhandler_started\<lparr>mq_connection := Some 1,
                mq_metrics := Some (metrics_init\<lparr>metrics_enabled := True, count_mq_connection_attempts := 3\<rparr>)\<rparr>,
           [2, 4]) \<and>
   mq_attempts_counter (mqhandler_started\<lparr>mq_connection := Some 1,
       mq_metrics := Some (metrics_init\<lparr>metrics_enabled := True, count_mq_connection_attempts := 3\<rparr>)\<rparr>) = 3 \<and>
   create_connection [Connected 2]
       (mqhandler_started\<lparr>mq_connection := Some 1,
          mq_metrics := Some (metrics_init\<lparr>metrics_enabled := True, count_mq_connection_attempts := 3\<rparr>)\<rparr>) =
     Some (1, mqhandler_started\<lparr>mq_connection := Some 2,
                mq_metrics := Some (metrics_init\<lparr>metrics_enabled := True, count_mq_connection_attempts := 1\<rparr>)\<rparr>,
           []) \<and>
   mq_attempts_counter (mqhandler_started\<lparr>mq_connection := Some 2,
       mq_metrics := Some (metrics_init\<lparr>metrics_enabled := True, count_mq_connection_attempts := 1\<rparr>)\<rparr>) = 1"
  by code_simp

section \<open>Properties of the signed token\<close>

text \<open>
  A dict built from pairs with distinct keys is the list of the pairs; so the dict built
  from a merge without key clash holds exactly the united items, each key once, in the
  order the set was iterated.
\<close>

lemma dict_setitem_new:
  "k \<notin> fst ` set d \<Longrightarrow> dict_setitem d k v = d @ [(k, v)]"
  by (induction d) auto

lemma foldl_dict_setitem_distinct:
  "distinct (map fst (acc @ ps)) \<Longrightarrow>
     foldl (\<lambda>d (k, v). dict_setitem d k v) acc ps = acc @ ps"
proof (induction ps arbitrary: acc)
  case Nil
  then show ?case by simp
next
  case (Cons p ps)
  obtain k v where p: "p = (k, v)" by (cases p)
  from Cons.prems p have new: "k \<notin> fst ` set acc" by auto
  from Cons.prems p have "distinct (map fst ((acc @ [(k, v)]) @ ps))" by simp
  from Cons.IH [OF this] show ?case
    using p by (simp add: dict_setitem_new [OF new])
qed

lemma dict_of_pairs_distinct:
  "distinct (map fst ps) \<Longrightarrow> dict_of_pairs ps = ps"
  using foldl_dict_setitem_distinct [of "[]" ps] by (simp add: dict_of_pairs_def)

lemma iteration_order_keys:
  assumes "iteration_order iter" and "distinct (map fst xs)"
  shows "set (iter xs) = set xs" and "distinct (map fst (iter xs))"
proof -
  from assms(2) have d: "distinct xs" and inj: "inj_on fst (set xs)"
    by (simp_all add: distinct_map)
  from assms(1) d show s: "set (iter xs) = set xs"
    by (simp add: iteration_order_def)
  from assms(1) d have "distinct (iter xs)"
    by (simp add: iteration_order_def)
  with inj s show "distinct (map fst (iter xs))"
    by (simp add: distinct_map)
qed

lemma merged_dict:
  assumes "iteration_order iter" and "no_key_clash a b"
  shows "set (dict_of_pairs (items_union iter a b)) = set a \<union> set b"
    and "distinct (map fst (dict_of_pairs (items_union iter a b)))"
proof -
  from assms(2) have k: "distinct (map fst (remdups (a @ b)))"
    by (simp add: no_key_clash_def)
  from iteration_order_keys [OF assms(1) k]
  have s: "set (iter (remdups (a @ b))) = set (remdups (a @ b))"
    and d: "distinct (map fst (iter (remdups (a @ b))))" .
  from d have e: "dict_of_pairs (items_union iter a b) = iter (remdups (a @ b))"
    by (simp add: items_union_def dict_of_pairs_distinct)
  from e s show "set (dict_of_pairs (items_union iter a b)) = set a \<union> set b" by simp
  from e d show "distinct (map fst (dict_of_pairs (items_union iter a b)))" by simp
qed

lemma merged_dict_lookup:
  assumes "iteration_order iter" and "no_key_clash a b" and "(k, v) \<in> set a \<union> set b"
  shows "map_of (dict_of_pairs (items_union iter a b)) k = Some v"
  using merged_dict [OF assms(1,2)] assms(3) by (metis map_of_is_SomeI)

lemma iteration_order_id: "iteration_order id"
  by (simp add: iteration_order_def)

lemma iteration_order_rev: "iteration_order rev"
  by (simp add: iteration_order_def)


text \<open>
  C4, as amended. Token construction is deterministic given the inputs, \<open>now\<close>, the
  nonce and the order in which the two merged item sets are iterated: two runs that
  iterate the header items and the payload items in the same order emit the same
  header, payload and signature. Under any two iteration orders, and with extra
  parameters that give no key a second value, the header and the payload hold the same
  key/value pairs; the order of the members, and with it the bytes, is the order of
  iteration.
\<close>

theorem jwt_members_independent_of_order:
  assumes "iteration_order iter1" and "iteration_order iter2"
    and "no_key_clash algo_items header_params"
    and "no_key_clash (jwt_payload_items key_id path uri method now nonce) jwt_params"
  shows "set (header_dict iter1 header_params) = set (header_dict iter2 header_params) \<and>
         map_of (header_dict iter1 header_params) = map_of (header_dict iter2 header_params) \<and>
         set (payload_dict iter1 now nonce key_id path uri method jwt_params) =
           set (payload_dict iter2 now nonce key_id path uri method jwt_params) \<and>
         map_of (payload_dict iter1 now nonce key_id path uri method jwt_params) =
           map_of (payload_dict iter2 now nonce key_id path uri method jwt_params) \<and>
         (items_union iter1 algo_items header_params = items_union iter2 algo_items header_params \<and>
          items_union iter1 (jwt_payload_items key_id path uri method now nonce) jwt_params =
            items_union iter2 (jwt_payload_items key_id path uri method now nonce) jwt_params \<longrightarrow>
            jwt_parts hmac_sha256 iter1 now nonce key_id key_secret path uri method jwt_params header_params =
            jwt_parts hmac_sha256 iter2 now nonce key_id key_secret path uri method jwt_params header_params)"
proof -
  let ?claims = "jwt_payload_items key_id path uri method now nonce"
  have h1: "set (header_dict iter1 header_params) = set algo_items \<union> set header_params"
    and h1d: "distinct (map fst (header_dict iter1 header_params))"
    unfolding header_dict_def using merged_dict [OF assms(1) assms(3)] by simp_all
  have h2: "set (header_dict iter2 header_params) = set algo_items \<union> set header_params"
    and h2d: "distinct (map fst (header_dict iter2 header_params))"
    unfolding header_dict_def using merged_dict [OF assms(2) assms(3)] by simp_all
  have p1: "set (payload_dict iter1 now nonce key_id path uri method jwt_params) = set ?claims \<union> set jwt_params"
    and p1d: "distinct (map fst (payload_dict iter1 now nonce key_id path uri method jwt_params))"
    unfolding payload_dict_def using merged_dict [OF assms(1) assms(4)] by simp_all
  have p2: "set (payload_dict iter2 now nonce key_id path uri method jwt_params) = set ?claims \<union> set jwt_params"
    and p2d: "distinct (map fst (payload_dict iter2 now nonce key_id path uri method jwt_params))"
    unfolding payload_dict_def using merged_dict [OF assms(2) assms(4)] by simp_all
  have hs: "set (header_dict iter1 header_params) = set (header_dict iter2 header_params)"
    using h1 h2 by simp
  have ps: "set (payload_dict iter1 now nonce key_id path uri method jwt_params) =
           set (payload_dict iter2 now nonce key_id path uri method jwt_params)"
    using p1 p2 by simp
  have hm: "map_of (header_dict iter1 header_params) = map_of (header_dict iter2 header_params)"
    using map_of_inject_set [OF h1d h2d] hs by simp
  have pm: "map_of (payload_dict iter1 now nonce key_id path uri method jwt_params) =
           map_of (payload_dict iter2 now nonce key_id path uri method jwt_params)"
    using map_of_inject_set [OF p1d p2d] ps by simp
  have same: "jwt_parts hmac_sha256 iter1 now nonce key_id key_secret path uri method jwt_params header_params =
            jwt_parts hmac_sha256 iter2 now nonce key_id key_secret path uri method jwt_params header_params"
    if "items_union iter1 algo_items header_params = items_union iter2 algo_items header_params"
      and "items_union iter1 ?claims jwt_params = items_union iter2 ?claims jwt_params"
    using that
    by (simp add: jwt_parts_def generate_header_def generate_payload_def header_dict_def
        payload_dict_def)
  from hs hm ps pm same show ?thesis by blast
qed

theorem jwt_members_independent_of_order_witness:
  "iteration_order id \<and> iteration_order rev \<and> no_key_clash algo_items [] \<and>
   no_key_clash (jwt_payload_items ''cid'' ''/x'' ''wss://h'' ''GET'' 1700000000 nonce_zero) [] \<and>
   set (header_dict id []) = set (header_dict rev []) \<and>
   map_of (payload_dict id 1700000000 nonce_zero ''cid'' ''/x'' ''wss://h'' ''GET'' []) =
     map_of (payload_dict rev 1700000000 nonce_zero ''cid'' ''/x'' ''wss://h'' ''GET'' [])"
proof -
  have a: "no_key_clash algo_items []"
    by (simp add: no_key_clash_def algo_items_def)
  have b: "no_key_clash (jwt_payload_items ''cid'' ''/x'' ''wss://h'' ''GET'' 1700000000 nonce_zero) []"
    by (simp add: no_key_clash_def jwt_payload_items_def)
  from jwt_members_independent_of_order [OF iteration_order_id iteration_order_rev a b]
    iteration_order_id iteration_order_rev a b
  show ?thesis by blast
qed

text \<open>
  C4 as stated fails: with the same inputs (no extra header parameters), a run that
  iterates the set of the two header items in one order and a run that iterates it in
  the other emit different header bytes, the encodings of
  \<open>{"alg": "HS256", "typ": "JWT"}\<close> and of \<open>{"typ": "JWT", "alg": "HS256"}\<close>.
\<close>

theorem jwt_header_order_counterexample:
  "generate_header id [] = ''eyJhbGciOiAiSFMyNTYiLCAidHlwIjogIkpXVCJ9'' \<and>
   generate_header rev [] = ''eyJ0eXAiOiAiSldUIiwgImFsZyI6ICJIUzI1NiJ9'' \<and>
   generate_header id [] \<noteq> generate_header rev []"
  by (simp add: generate_header_def header_dict_def items_union_def dict_of_pairs_def
      algo_items_def json_dumps_def json_member_def json_string_def json_escape_char_def
      b64encode_def utf8_encode_def utf8_encode_char_def b64_char_def Let_def)

text \<open>
  The payload inside a WebSocket URL: \<open>generate_websocket_url\<close> hands the merged
  parameters down to \<open>generate_jwt\<close>, whose second part is \<open>generate_payload\<close> of
  them, the serialisation of \<open>payload_dict\<close>.
\<close>

lemma generate_websocket_url_token:
  "unhexlify client_secret = Inr key_secret \<Longrightarrow>
     generate_websocket_url urlencode hmac_sha256 iter time_ws now nonce path method
         (client_id, client_secret) uri jwt_params header_params query_params =
       Inr (uri @ path @ ''?'' @
            urlencode (dict_setitem query_params ''jwt''
              (generate_jwt hmac_sha256 iter now nonce client_id key_secret path uri method
                 (websocket_jwt_params iter time_ws jwt_params) header_params)))"
  by (simp add: generate_websocket_url_def generate_url_def)

lemma jwt_parts_payload:
  "fst (snd (jwt_parts hmac_sha256 iter now nonce key_id key_secret path uri method jwt_params header_params)) =
     b64encode (PyText (json_dumps (payload_dict iter now nonce key_id path uri method jwt_params)))"
  by (simp add: jwt_parts_def generate_payload_def Let_def)

text \<open>
  C8, as amended. For every generated payload whose extra parameters give none of the
  keys a second value, the claims satisfy \<open>exp = now + 300\<close>, \<open>nbf = now - 60\<close>,
  \<open>iat = now - 60\<close>, \<open>iss = kid = client_id =\<close> the key id and \<open>region = "ny"\<close>, where
  \<open>now\<close> is the clock reading of \<open>generate_payload\<close>; and for WebSocket URLs the payload
  also holds \<open>connection_expiry = t + 300\<close>, where \<open>t\<close> is the clock reading of
  \<open>generate_websocket_url\<close>.
\<close>

theorem payload_claims:
  assumes "iteration_order iter"
    and "no_key_clash (jwt_payload_items key_id path uri method now nonce) payload_params"
  shows "map_of (payload_dict iter now nonce key_id path uri method payload_params) ''exp'' = Some (JInt (now + 300)) \<and>
         map_of (payload_dict iter now nonce key_id path uri method payload_params) ''nbf'' = Some (JInt (now - 60)) \<and>
         map_of (payload_dict iter now nonce key_id path uri method payload_params) ''iat'' = Some (JInt (now - 60)) \<and>
         map_of (payload_dict iter now nonce key_id path uri method payload_params) ''iss'' = Some (JStr key_id) \<and>
         map_of (payload_dict iter now nonce key_id path uri method payload_params) ''kid'' = Some (JStr key_id) \<and>
         map_of (payload_dict iter now nonce key_id path uri method payload_params) ''client_id'' = Some (JStr key_id) \<and>
         map_of (payload_dict iter now nonce key_id path uri method payload_params) ''region'' = Some (JStr ''ny'') \<and>
         (payload_params = websocket_jwt_params iter time_ws jwt_params \<and>
          no_key_clash [(''connection_expiry'', JInt (time_ws + 300))] jwt_params \<longrightarrow>
            map_of (payload_dict iter now nonce key_id path uri method payload_params) ''connection_expiry'' =
              Some (JInt (time_ws + 300)))"
proof -
  let ?claims = "jwt_payload_items key_id path uri method now nonce"
  let ?p = "map_of (payload_dict iter now nonce key_id path uri method payload_params)"
  have look: "?p k = Some v" if "(k, v) \<in> set ?claims \<union> set payload_params" for k v
    unfolding payload_dict_def using merged_dict_lookup [OF assms(1) assms(2) that] .
  have c1: "?p ''exp'' = Some (JInt (now + 300))"
    by (rule look) (simp add: jwt_payload_items_def)
  have c2: "?p ''nbf'' = Some (JInt (now - 60))"
    by (rule look) (simp add: jwt_payload_items_def)
  have c3: "?p ''iat'' = Some (JInt (now - 60))"
    by (rule look) (simp add: jwt_payload_items_def)
  have c4: "?p ''iss'' = Some (JStr key_id)"
    by (rule look) (simp add: jwt_payload_items_def)
  have c5: "?p ''kid'' = Some (JStr key_id)"
    by (rule look) (simp add: jwt_payload_items_def)
  have c6: "?p ''client_id'' = Some (JStr key_id)"
    by (rule look) (simp add: jwt_payload_items_def)
  have c7: "?p ''region'' = Some (JStr ''ny'')"
    by (rule look) (simp add: jwt_payload_items_def)
  have c8: "?p ''connection_expiry'' = Some (JInt (time_ws + 300))"
    if eq: "payload_params = websocket_jwt_params iter time_ws jwt_params"
      and nc: "no_key_clash [(''connection_expiry'', JInt (time_ws + 300))] jwt_params"
  proof -
    from merged_dict(1) [OF assms(1) nc]
    have "(''connection_expiry'', JInt (time_ws + 300)) \<in> set payload_params"
      by (simp add: eq websocket_jwt_params_def)
    then show ?thesis by (intro look) simp
  qed
  from c1 c2 c3 c4 c5 c6 c7 c8 show ?thesis by blast
qed

text \<open>
  The instance is the call of \<open>run_ws_server\<close>: no extra parameters beside
  \<open>connection_expiry\<close>, here with the clock one second further at the payload.
\<close>

theorem payload_claims_witness:
  "iteration_order rev \<and>
   websocket_jwt_params rev 1700000002 [] = [(''connection_expiry'', JInt 1700000302)] \<and>
   no_key_clash (jwt_payload_items ''cid'' ''/x'' ''wss://h'' ''GET'' 1700000003 nonce_zero)
     (websocket_jwt_params rev 1700000002 []) \<and>
   no_key_clash [(''connection_expiry'', JInt (1700000002 + 300))] [] \<and>
   map_of (payload_dict rev 1700000003 nonce_zero ''cid'' ''/x'' ''wss://h'' ''GET''
             (websocket_jwt_params rev 1700000002 [])) ''exp'' = Some (JInt 1700000303) \<and>
   map_of (payload_dict rev 1700000003 nonce_zero ''cid'' ''/x'' ''wss://h'' ''GET''
             (websocket_jwt_params rev 1700000002 [])) ''iat'' = Some (JInt 1699999943) \<and>
   map_of (payload_dict rev 1700000003 nonce_zero ''cid'' ''/x'' ''wss://h'' ''GET''
             (websocket_jwt_params rev 1700000002 [])) ''iss'' = Some (JStr ''cid'') \<and>
   map_of (payload_dict rev 1700000003 nonce_zero ''cid'' ''/x'' ''wss://h'' ''GET''
             (websocket_jwt_params rev 1700000002 [])) ''connection_expiry'' = Some (JInt 1700000302)"
proof -
  have w: "websocket_jwt_params rev 1700000002 [] = [(''connection_expiry'', JInt 1700000302)]"
    by (simp add: websocket_jwt_params_def items_union_def dict_of_pairs_def)
  have a: "no_key_clash (jwt_payload_items ''cid'' ''/x'' ''wss://h'' ''GET'' 1700000003 nonce_zero)
     (websocket_jwt_params rev 1700000002 [])"
    unfolding w by (simp add: no_key_clash_def jwt_payload_items_def)
  have b: "no_key_clash [(''connection_expiry'', JInt (1700000002 + 300))] []"
    by (simp add: no_key_clash_def)
  from payload_claims [OF iteration_order_rev a, of 1700000002 "[]"] b
    iteration_order_rev w a
  show ?thesis by simp
qed

text \<open>
  C8 as stated fails when an extra parameter reuses a claim name: the merged set holds
  two items with the key \<open>exp\<close>, and the one iterated last gives the value.
\<close>

theorem payload_override_counterexample:
  "map_of (payload_dict id 1700000000 nonce_zero ''cid'' ''/x'' ''wss://h'' ''GET'' [(''exp'', JInt 0)]) ''exp''
     = Some (JInt 0) \<and>
   map_of (payload_dict id 1700000000 nonce_zero ''cid'' ''/x'' ''wss://h'' ''GET'' [(''exp'', JInt 0)]) ''exp''
     \<noteq> Some (JInt (1700000000 + 300))"
  by code_simp

section \<open>Properties of the WebSocket handler and its stub\<close>

text \<open>
  The frame counters are only ever incremented: no send, stub send or \<open>on_message\<close>
  lowers frames-to-WS or frames-from-WS.
\<close>

lemma frame_counters_monotone:
  "ws_frames_to h \<le> ws_frames_to (fst (snd (send_ws_message h ok msg)))"
  "ws_frames_from h \<le> ws_frames_from (fst (snd (send_ws_message h ok msg)))"
  "ws_frames_to h \<le> ws_frames_to (fst (on_message f h msg s))"
  "ws_frames_from h \<le> ws_frames_from (fst (on_message f h msg s))"
  "send_ws_message_stub f h msg s = Inr (r, h', s', eff) \<Longrightarrow>
     ws_frames_to h \<le> ws_frames_to h' \<and> ws_frames_from h \<le> ws_frames_from h'"
  by (cases "ws_metrics h"; cases f;
      auto simp: ws_frames_to_def ws_frames_from_def send_ws_message_def on_message_def
        send_ws_message_stub_def when_metrics_def Let_def split: if_splits)+

text \<open>
  The ws-connect-attempts counter is assigned from the local \<open>attempt\<close> of
  \<open>run_ws_server\<close>, which the loop resets to 0 after a session that outlived the
  attempt window. After a failed handshake and a session of 100 seconds the counter is
  2 when the handler is stopped; with one more attempt before the stop it is 1.
\<close>

lemma run_ws_server_counter_decreases:
  "(\<exists>h1 h2. run_ws_server (Some record_frame) [session_no_handshake, session_long, session_stopped]
               wshandler_init [] = Some (Inr (), h1, [''frame'']) \<and>
            ws_attempts_counter h1 = 2 \<and>
            run_ws_server (Some record_frame)
               [session_no_handshake, session_long, session_no_handshake, session_stopped]
               wshandler_init [] = Some (Inr (), h2, [''frame'']) \<and>
            ws_attempts_counter h2 = 1)"
proof -
  have a: "map_option (\<lambda>(r, h, s). (r, ws_attempts_counter h, s))
      (run_ws_server (Some record_frame) [session_no_handshake, session_long, session_stopped]
               wshandler_init []) = Some (Inr (), 2, [''frame''])"
    by code_simp
  have b: "map_option (\<lambda>(r, h, s). (r, ws_attempts_counter h, s))
      (run_ws_server (Some record_frame)
               [session_no_handshake, session_long, session_no_handshake, session_stopped]
               wshandler_init []) = Some (Inr (), 1, [''frame''])"
    by code_simp
  from a b show ?thesis by (auto simp: map_option_case split: option.splits)
qed

text \<open>
  With the handler running and connected, every stub send goes through, and the
  handler stays running and connected.
\<close>

lemma foldl_record_frame: "foldl (\<lambda>s m. record_frame m s) delivered frames = delivered @ frames"
  by (induction frames arbitrary: delivered) (simp_all add: record_frame_def)

lemma stub_send_all_running:
  "ws_connected h \<Longrightarrow> ws_running h \<Longrightarrow>
     \<exists>h'. stub_send_all (Some f) h frames s =
            Inr (replicate (length frames) True, h', foldl (\<lambda>s m. f m s) s frames, []) \<and>
          ws_connected h' \<and> ws_running h'"
proof (induction frames arbitrary: h s)
  case Nil
  then show ?case by simp
next
  case (Cons m frames)
  let ?h = "h\<lparr>ws_metrics := when_metrics (ws_metrics h)
                    (\<lambda>m. m\<lparr>count_to_ws := count_to_ws m + 1, count_from_ws := count_from_ws m + 1\<rparr>)\<rparr>"
  have one: "send_ws_message_stub (Some f) h m s = Inr (True, ?h, f m s, [])"
    using Cons.prems by (simp add: send_ws_message_stub_def STUB_SEND_DELAY_def)
  have "ws_connected ?h" "ws_running ?h" using Cons.prems by simp_all
  from Cons.IH [OF this, of "f m s"]
  obtain h' where "stub_send_all (Some f) ?h frames (f m s) =
            Inr (replicate (length frames) True, h', foldl (\<lambda>s m. f m s) (f m s) frames, [])"
    and "ws_connected h'" and "ws_running h'"
    by blast
  with one show ?case by simp
qed

text \<open>
  C9. With the stub handler running and connected (and \<open>STUB_SEND_DELAY = 0\<close>, as the
  module sets it), a stub send of frame \<open>m\<close> returns true, without sleeping, after one
  call \<open>on_message_handler(m)\<close>: the state behind the handler is \<open>f m s\<close>. Sending a
  sequence of frames applies the handler to the frames one by one in order; for the
  handler that records what it is given, the sequence delivered is the sequence sent.
\<close>

theorem stub_loopback:
  assumes "ws_connected h" and "ws_running h"
  shows "(\<exists>h'. send_ws_message_stub (Some f) h m s = Inr (True, h', f m s, [])) \<and>
         (\<exists>h'. stub_send_all (Some f) h frames s =
                  Inr (replicate (length frames) True, h', foldl (\<lambda>s m. f m s) s frames, [])) \<and>
         (\<exists>h'. stub_send_all (Some record_frame) h frames [] =
                  Inr (replicate (length frames) True, h', frames, []))"
proof -
  have a: "\<exists>h'. send_ws_message_stub (Some f) h m s = Inr (True, h', f m s, [])"
    using assms by (simp add: send_ws_message_stub_def STUB_SEND_DELAY_def)
  from stub_send_all_running [OF assms, of f frames s]
  have b: "\<exists>h'. stub_send_all (Some f) h frames s =
                  Inr (replicate (length frames) True, h', foldl (\<lambda>s m. f m s) s frames, [])"
    by blast
  from stub_send_all_running [OF assms, of record_frame frames "[]"]
  have c: "\<exists>h'. stub_send_all (Some record_frame) h frames [] =
                  Inr (replicate (length frames) True, h', frames, [])"
    unfolding foldl_record_frame by auto
  from a b c show ?thesis by blast
qed

theorem stub_loopback_witness:
  "ws_connected wshandler_stub_running \<and> ws_running wshandler_stub_running \<and>
   stub_send_all (Some record_frame) wshandler_stub_running [''a'', ''b'', ''c''] [] =
     Inr ([True, True, True],
          wshandler_stub_running\<lparr>ws_metrics :=
            Some (metrics_init\<lparr>metrics_enabled := True, count_to_ws := 3, count_from_ws := 3\<rparr>)\<rparr>,
          [''a'', ''b'', ''c''], [])"
proof -
  have c: "ws_connected wshandler_stub_running" and r: "ws_running wshandler_stub_running"
    by (simp_all add: wshandler_stub_running_def)
  have e: "stub_send_all (Some record_frame) wshandler_stub_running [''a'', ''b'', ''c''] [] =
     Inr ([True, True, True],
          wshandler_stub_running\<lparr>ws_metrics :=
            Some (metrics_init\<lparr>metrics_enabled := True, count_to_ws := 3, count_from_ws := 3\<rparr>)\<rparr>,
          [''a'', ''b'', ''c''], [])"
    by code_simp
  from stub_loopback [OF c r, of record_frame "''a''" "[]" "[''a'', ''b'', ''c'']"] c r e
  show ?thesis by blast
qed

section \<open>Properties of the startup poll\<close>

text \<open>
  The poll compares \<open>ws_failed\<close> with \<open>True\<close> by identity. While the flag is not the
  object \<open>True\<close> at any iteration, the poll leaves the supervisor as it was; and neither
  \<open>on_close\<close> nor \<open>run_ws_server\<close>, the two writers of the flag, ever store \<open>True\<close>:
  they store a reason string.
\<close>

lemma poll_from_reason_ignored:
  "(\<And>poll. ws_failed (snd (view poll)) \<noteq> PyBool True) \<Longrightarrow> fst (poll_from view n p bb) = bb"
  by (induction n arbitrary: p) (simp_all add: py_is_True_def case_prod_beta)

lemma on_close_not_True:
  "ws_failed h \<noteq> PyBool True \<Longrightarrow> ws_failed (on_close h code msg) \<noteq> PyBool True"
  by (simp add: on_close_def Let_def)

lemma run_callbacks_not_True:
  "ws_failed h \<noteq> PyBool True \<Longrightarrow> ws_failed (fst (run_callbacks f h cs s)) \<noteq> PyBool True"
proof (induction f h cs s rule: run_callbacks.induct)
  case (3 f h m cs s)
  then show ?case by (cases f) (simp_all add: on_message_def)
qed (simp_all add: on_open_def on_close_not_True)

lemma run_ws_server_loop_not_True:
  "ws_failed h \<noteq> PyBool True \<Longrightarrow> run_ws_server_loop f script attempt h s = Some (r, h', s') \<Longrightarrow>
     ws_failed h' \<noteq> PyBool True"
proof (induction script arbitrary: attempt h s)
  case Nil
  then show ?case by (auto split: if_splits)
next
  case (Cons a script)
  show ?case
  proof (cases "attempt < ws_max_connect_attempts h")
    case False
    with Cons.prems show ?thesis by auto
  next
    case lt: True
    let ?h1 = "if closed_before a then h\<lparr>ws_running := False\<rparr> else h"
    show ?thesis
    proof (cases "ws_running ?h1")
      case False
      with lt Cons.prems show ?thesis by (auto simp: Let_def split: if_splits)
    next
      case run: True
      let ?h2 = "?h1\<lparr>ws_metrics := when_metrics (ws_metrics ?h1)
                          (\<lambda>m. m\<lparr>count_ws_connection_attempts := attempt + 1\<rparr>)\<rparr>"
      have f2: "ws_failed ?h2 \<noteq> PyBool True" using Cons.prems(1) by simp
      show ?thesis
      proof (cases "app_created a")
        case False
        with lt run Cons.prems(2)
        have "run_ws_server_loop f script (attempt + 1) ?h2 s = Some (r, h', s')"
          by (simp add: Let_def split: if_splits)
        from Cons.IH [OF f2 this] show ?thesis .
      next
        case app: True
        obtain h3 s3 where cb: "run_callbacks f (?h2\<lparr>ws_handle := Some (nat (attempt + 1))\<rparr>) (callbacks a) s = (h3, s3)"
          by (cases "run_callbacks f (?h2\<lparr>ws_handle := Some (nat (attempt + 1))\<rparr>) (callbacks a) s")
        have "ws_failed (?h2\<lparr>ws_handle := Some (nat (attempt + 1))\<rparr>) \<noteq> PyBool True"
          using f2 by simp
        from run_callbacks_not_True [OF this, of f "callbacks a" s] cb
        have f3: "ws_failed h3 \<noteq> PyBool True" by simp
        show ?thesis
        proof (cases "session_end a")
          case (Teardown t)
          with lt run app cb Cons.prems(2)
          have "run_ws_server_loop f script
                  (if session_secs a > ws_attempt_window_secs h3 then 0 else attempt + 1) h3 s3 = Some (r, h', s')"
            by (simp add: Let_def split: if_splits)
          from Cons.IH [OF f3 this] show ?thesis .
        next
          case SessionInterrupted
          with lt run app cb Cons.prems(2)
          have "run_ws_server_loop f script (attempt + 1) (h3\<lparr>ws_running := False\<rparr>) s3 = Some (r, h', s')"
            by (simp add: Let_def split: if_splits)
          moreover have "ws_failed (h3\<lparr>ws_running := False\<rparr>) \<noteq> PyBool True" using f3 by simp
          ultimately show ?thesis using Cons.IH by blast
        next
          case SessionRaises
          with lt run app cb Cons.prems(2) f3 show ?thesis
            by (simp add: Let_def split: if_splits)
        qed
      qed
    qed
  qed
qed

text \<open>
  C2. The claim has the supervisor trip shutdown and record a non-zero exit code
  whenever the failed flag has been set during the poll. In a run whose WebSocket never
  handshakes, \<open>on_close\<close> sets the flag to its reason string before the first
  iteration; the poll goes through all 60 iterations, sleeping a second in each, and
  leaves \<open>server_running\<close> set, the interrupter asleep and \<open>successful_start = 0\<close>.
\<close>

theorem startup_poll_ignores_failed_reason:
  "ws_failed ws_after_failed_handshake = PyStr failed_to_connect \<and>
   startup_poll view_failed_handshake supervisor_started = (supervisor_started, replicate 60 1) \<and>
   server_running supervisor_started \<and> successful_start supervisor_started = 0"
  by code_simp

end
